theory Spec2Isabelle
  imports Complex_Main
begin

section \<open>Python values shared by the modules\<close>

text \<open>
  A Python \<open>str\<close> is a sequence of Unicode code points; the emoji ranges of
  \<open>audio/tts.py\<close> and the symbols it expands lie far above one byte, so a text is a
  list of code points and not a list of 8-bit characters.
\<close>

type_synonym ustr = "nat list"

definition ascii :: "string \<Rightarrow> ustr" where
  "ascii s = map of_char s"

text \<open>
  The exceptions the modelled code raises or handles. \<open>Empty\<close> is \<open>queue.Empty\<close>,
  \<open>Error msg\<close> is any other instance of \<open>Exception\<close> whose \<open>str\<close> is \<open>msg\<close>;
  \<open>KeyboardInterrupt\<close> derives from \<open>BaseException\<close> only, so a handler
  \<open>except Exception\<close> lets it through.
\<close>

datatype exn = Empty | KeyboardInterrupt | Error ustr

fun is_Exception :: "exn \<Rightarrow> bool" where
  "is_Exception KeyboardInterrupt = False"
| "is_Exception _ = True"

fun exn_str :: "exn \<Rightarrow> ustr" where
  "exn_str (Error msg) = msg"
| "exn_str _ = []"

text \<open>A call that may wait for ever on a condition no other party can establish.\<close>

datatype 'a blocking = Blocks | Returns 'a

section \<open>\<open>queue.Queue\<close> as the sources use it\<close>

record 'a Queue =
  maxsize :: int
  items :: "'a list"

definition Queue_init :: "int \<Rightarrow> 'a Queue" where
  "Queue_init n = \<lparr>maxsize = n, items = []\<rparr>"

definition qsize :: "'a Queue \<Rightarrow> int" where
  "qsize q = int (length (items q))"

text \<open>\<open>Queue.full\<close> is \<open>0 < self.maxsize <= self._qsize()\<close>: a queue whose
  \<open>maxsize\<close> is zero or negative is never full.\<close>

definition queue_full :: "'a Queue \<Rightarrow> bool" where
  "queue_full q \<longleftrightarrow> 0 < maxsize q \<and> maxsize q \<le> qsize q"

text \<open>\<open>Queue.put(item)\<close> with the default \<open>block=True, timeout=None\<close>: with a positive
  \<open>maxsize\<close> it waits while the queue holds \<open>maxsize\<close> items; with nobody taking an
  item out, that wait never ends.\<close>

definition queue_put :: "'a Queue \<Rightarrow> 'a \<Rightarrow> 'a Queue blocking" where
  "queue_put q x =
     (if 0 < maxsize q \<and> maxsize q \<le> qsize q then Blocks
      else Returns (q\<lparr>items := items q @ [x]\<rparr>))"

definition queue_get_nowait :: "'a Queue \<Rightarrow> exn + ('a \<times> 'a Queue)" where
  "queue_get_nowait q =
     (case items q of
        [] \<Rightarrow> Inl Empty
      | x # xs \<Rightarrow> Inr (x, q\<lparr>items := xs\<rparr>))"

text \<open>\<open>Queue.get(timeout=t)\<close>: the oldest item when there is one; otherwise the call
  waits up to \<open>t\<close> for a producer. \<open>arrival\<close> is what a producer puts during that wait,
  if anything; with no arrival the call raises \<open>Empty\<close> when the time is over.\<close>

definition queue_get :: "'a option \<Rightarrow> 'a Queue \<Rightarrow> exn + ('a \<times> 'a Queue)" where
  "queue_get arrival q =
     (case items q of
        x # xs \<Rightarrow> Inr (x, q\<lparr>items := xs\<rparr>)
      | [] \<Rightarrow> (case arrival of
                 Some x \<Rightarrow> Inr (x, q)
               | None \<Rightarrow> Inl Empty))"

section \<open>\<open>camera/stream.py\<close>: the frame buffer\<close>

text \<open>Of a \<open>VideoStream\<close> the claims concern the queue \<open>Q\<close> and the flag \<open>stopped\<close>;
  the camera handle and the thread object are the environment: the camera is the list of
  \<open>(ret, frame)\<close> pairs that \<open>cap.read()\<close> delivers. What the class prints (the warning on
  a failed read, the line at \<open>stop\<close>) is left out. Each queue operation is one step; no
  consumer acts between the steps of one turn of \<open>update\<close>.\<close>

record 'f VideoStream =
  Q :: "'f Queue"
  stopped :: bool

text \<open>\<open>__init__(src=0, width=640, height=480, queue_size=5)\<close>. Nothing in the
  constructor inspects \<open>queue_size\<close>, and \<open>queue.Queue\<close> accepts every integer.\<close>

definition VideoStream_init :: "int \<Rightarrow> exn + 'f VideoStream" where
  "VideoStream_init queue_size = Inr \<lparr>Q = Queue_init queue_size, stopped = False\<rparr>"


text \<open>One turn of the loop in \<open>update\<close>, given what \<open>cap.read()\<close> returned.\<close>

definition update_step :: "bool \<times> 'f \<Rightarrow> 'f VideoStream \<Rightarrow> 'f VideoStream blocking" where
  "update_step r vs =
     (case r of (ret, frame) \<Rightarrow>
        if \<not> ret then Returns vs
        else if \<not> queue_full (Q vs) then
          (case queue_put (Q vs) frame of
             Blocks \<Rightarrow> Blocks
           | Returns q \<Rightarrow> Returns (vs\<lparr>Q := q\<rparr>))
        else
          (case queue_get_nowait (Q vs) of
             Inl e \<Rightarrow> Returns vs
           | Inr (old, q) \<Rightarrow>
               (case queue_put q frame of
                  Blocks \<Rightarrow> Blocks
                | Returns q' \<Rightarrow> Returns (vs\<lparr>Q := q'\<rparr>))))"

text \<open>\<open>update\<close>: \<open>while not self.stopped\<close>, run over the camera reads delivered so far.\<close>

fun VideoStream_update :: "(bool \<times> 'f) list \<Rightarrow> 'f VideoStream \<Rightarrow> 'f VideoStream blocking" where
  "VideoStream_update [] vs = Returns vs"
| "VideoStream_update (r # rs) vs =
     (if stopped vs then Returns vs
      else (case update_step r vs of
              Blocks \<Rightarrow> Blocks
            | Returns vs' \<Rightarrow> VideoStream_update rs vs'))"

text \<open>\<open>read\<close>: \<open>self.Q.get(timeout=1.0)\<close>, and \<open>None\<close> on \<open>queue.Empty\<close>.\<close>

definition VideoStream_read :: "'f option \<Rightarrow> 'f VideoStream \<Rightarrow> 'f option \<times> 'f VideoStream" where
  "VideoStream_read arrival vs =
     (case queue_get arrival (Q vs) of
        Inl e \<Rightarrow> (None, vs)
      | Inr (frame, q) \<Rightarrow> (Some frame, vs\<lparr>Q := q\<rparr>))"

text \<open>\<open>stop\<close> sets the flag, joins the capture thread and releases the camera; the queue
  is not touched.\<close>

definition VideoStream_stop :: "'f VideoStream \<Rightarrow> 'f VideoStream" where
  "VideoStream_stop vs = vs\<lparr>stopped := True\<rparr>"

section \<open>Python string operations used by the sources\<close>

text \<open>\<open>str.isspace\<close> on one code point: the white space of \<open>str.split()\<close> and
  \<open>str.strip()\<close> without arguments.\<close>

definition is_space :: "nat \<Rightarrow> bool" where
  "is_space c \<longleftrightarrow>
     (9 \<le> c \<and> c \<le> 13) \<or> (28 \<le> c \<and> c \<le> 32) \<or> c = 0x85 \<or> c = 0xA0 \<or> c = 0x1680
     \<or> (0x2000 \<le> c \<and> c \<le> 0x200A) \<or> c = 0x2028 \<or> c = 0x2029 \<or> c = 0x202F
     \<or> c = 0x205F \<or> c = 0x3000"

definition strip :: "ustr \<Rightarrow> ustr" where
  "strip s = rev (dropWhile is_space (rev (dropWhile is_space s)))"

text \<open>\<open>s.split()\<close>: the maximal runs of code points that are not white space; \<open>w\<close> is
  the run read so far.\<close>

fun split_from :: "ustr \<Rightarrow> ustr \<Rightarrow> ustr list" where
  "split_from w [] = (if w = [] then [] else [w])"
| "split_from w (c # cs) =
     (if is_space c then (if w = [] then split_from [] cs else w # split_from [] cs)
      else split_from (w @ [c]) cs)"

definition split :: "ustr \<Rightarrow> ustr list" where
  "split s = split_from [] s"

fun join :: "ustr \<Rightarrow> ustr list \<Rightarrow> ustr" where
  "join sep [] = []"
| "join sep [w] = w"
| "join sep (w # ws) = w @ sep @ join sep ws"

text \<open>\<open>s.replace(old, new)\<close>: the occurrences of \<open>old\<close> from left to right, without
  overlap; an empty \<open>old\<close> matches before every code point and at the end.\<close>

function replace :: "ustr \<Rightarrow> ustr \<Rightarrow> ustr \<Rightarrow> ustr" where
  "replace old new s =
     (if old = [] then new @ concat (map (\<lambda>c. c # new) s)
      else if s = [] then []
      else if take (length old) s = old then new @ replace old new (drop (length old) s)
      else hd s # replace old new (tl s))"
  by pat_completeness auto
termination
  by (relation "measure (\<lambda>(old, new, s). length s)") auto

declare replace.simps [simp del]

text \<open>\<open>s.lower()\<close>. Of the code points above 127 only U+0130 and U+212A have a lower case
  with an ASCII letter in it; every other one lower-cases to code points above 127 and is
  kept as it is here, which no comparison with the ASCII words of the program can tell apart.\<close>

definition lower_cp :: "nat \<Rightarrow> ustr" where
  "lower_cp c =
     (if 65 \<le> c \<and> c \<le> 90 then [c + 32]
      else if c = 0x130 then [0x69, 0x307]
      else if c = 0x212A then [0x6B]
      else [c])"

definition lower :: "ustr \<Rightarrow> ustr" where
  "lower s = concat (map lower_cp s)"

section \<open>\<open>audio/tts.py\<close>: the speech queue\<close>

text \<open>\<open>engine\<close> tells whether \<open>self.engine\<close> is an engine or \<open>None\<close>; \<open>speech_queue\<close> is
  \<open>Queue()\<close>, whose \<open>maxsize\<close> is 0, so that \<open>put\<close> appends and returns; \<open>spoken\<close> records
  the texts handed to \<open>engine.say\<close>.\<close>

record TTSEngine =
  engine :: bool
  speech_queue :: "ustr list"
  is_speaking :: bool
  stop_speaking :: bool
  spoken :: "ustr list"

text \<open>The character class of \<open>emoji_pattern\<close>.\<close>

definition emoji :: "nat \<Rightarrow> bool" where
  "emoji c \<longleftrightarrow>
     (0x1F600 \<le> c \<and> c \<le> 0x1F64F) \<or> (0x1F300 \<le> c \<and> c \<le> 0x1F5FF)
     \<or> (0x1F680 \<le> c \<and> c \<le> 0x1F6FF) \<or> (0x1F1E0 \<le> c \<and> c \<le> 0x1F1FF)
     \<or> (0x2702 \<le> c \<and> c \<le> 0x27B0) \<or> (0x24C2 \<le> c \<and> c \<le> 0x1F251)"

text \<open>The dictionary \<open>replacements\<close>, in its insertion order, which is the order of the
  loop over \<open>replacements.items()\<close>.\<close>

definition replacements :: "(ustr \<times> ustr) list" where
  "replacements =
     [([0xB0, 67], ascii '' degrees Celsius''),
      ([0xB0, 70], ascii '' degrees Fahrenheit''),
      (ascii ''%'', ascii '' percent''),
      (ascii ''&'', ascii '' and ''),
      (ascii ''@'', ascii '' at ''),
      (ascii ''#'', ascii '' hash ''),
      (ascii ''$'', ascii '' dollars ''),
      ([0x20AC], ascii '' euros ''),
      ([0xA3], ascii '' pounds ''),
      ([0x20B9], ascii '' rupees ''),
      (ascii ''...'', ascii '' ''),
      (ascii ''..'', ascii '' ''),
      (ascii ''  '', ascii '' '')]"

definition clean_text_for_speech :: "ustr \<Rightarrow> ustr" where
  "clean_text_for_speech text =
     (let text1 = filter (\<lambda>c. \<not> emoji c) text;
          text2 = foldl (\<lambda>t (symbol, word). replace symbol word t) text1 replacements;
          text3 = join (ascii '' '') (split text2)
      in strip text3)"

text \<open>The loop that empties the queue in \<open>stop_current_speech\<close>:
  \<open>while not self.speech_queue.empty(): self.speech_queue.get_nowait()\<close>.\<close>

fun clear_queue :: "ustr list \<Rightarrow> ustr list" where
  "clear_queue [] = []"
| "clear_queue (x # xs) = clear_queue xs"

text \<open>\<open>stop_current_speech\<close>. \<open>stop_exn\<close> is what \<open>engine.stop()\<close> does: \<open>None\<close> when it
  returns, \<open>Some msg\<close> when it raises an \<open>Exception\<close> whose text is \<open>msg\<close>. The first
  component of the result is what the call prints.\<close>

definition stop_current_speech :: "ustr option \<Rightarrow> TTSEngine \<Rightarrow> ustr list \<times> TTSEngine" where
  "stop_current_speech stop_exn t =
     (if engine t \<and> is_speaking t then
        (case stop_exn of
           Some msg \<Rightarrow> ([[0x274C] @ ascii '' Error stopping speech: '' @ msg], t)
         | None \<Rightarrow>
             ([[0x1F507] @ ascii '' Speech interrupted''],
              t\<lparr>speech_queue := clear_queue (speech_queue t), is_speaking := False\<rparr>))
      else ([], t))"

definition is_busy :: "TTSEngine \<Rightarrow> bool" where
  "is_busy t \<longleftrightarrow> is_speaking t \<or> speech_queue t \<noteq> []"

text \<open>\<open>speak(text, interrupt=False)\<close>.\<close>

definition speak :: "ustr option \<Rightarrow> ustr \<Rightarrow> bool \<Rightarrow> TTSEngine \<Rightarrow> ustr list \<times> TTSEngine" where
  "speak stop_exn text interrupt t =
     (if \<not> engine t then ([[0x1F916] @ ascii '': '' @ text], t)
      else if text = [] \<or> strip text = [] then ([], t)
      else
        (let clean_text = clean_text_for_speech text;
             (out, t') = (if interrupt then stop_current_speech stop_exn t else ([], t))
         in (out, t'\<lparr>speech_queue := speech_queue t' @ [clean_text]\<rparr>)))"

text \<open>One turn of \<open>_speech_worker\<close>, in its two halves: taking the next text from the
  queue and starting to speak it, and the end of that playback (\<open>say_exn\<close> is the
  \<open>Exception\<close> of \<open>engine.say\<close> or \<open>runAndWait\<close>, if one is raised).\<close>

definition worker_take :: "TTSEngine \<Rightarrow> TTSEngine" where
  "worker_take t =
     (if stop_speaking t then t
      else (case speech_queue t of
              [] \<Rightarrow> t
            | text # rest \<Rightarrow>
                if text \<noteq> [] \<and> engine t
                then t\<lparr>speech_queue := rest, is_speaking := True, spoken := spoken t @ [text]\<rparr>
                else t\<lparr>speech_queue := rest\<rparr>))"

definition worker_done :: "ustr option \<Rightarrow> TTSEngine \<Rightarrow> ustr list \<times> TTSEngine" where
  "worker_done say_exn t =
     (case say_exn of
        None \<Rightarrow> ([], t\<lparr>is_speaking := False\<rparr>)
      | Some msg \<Rightarrow> ([[0x274C] @ ascii '' TTS error: '' @ msg], t\<lparr>is_speaking := False\<rparr>))"

section \<open>\<open>app.py\<close>: the session state machine\<close>

text \<open>A chat message is the dictionary \<open>{"role": ..., "content": ...}\<close>.\<close>

record message =
  role :: ustr
  content :: ustr

text \<open>The fields of \<open>SmartVisionBot\<close> that its methods read and write. \<open>chat_thread\<close>
  counts the threads started on \<open>start_chat_session\<close>, \<open>identify_calls\<close> counts the calls of
  \<open>face_recognizer.identify\<close>, and \<open>stdout\<close> holds what has been printed, one entry for
  each \<open>print\<close> and each prompt of \<open>input\<close>. A time is the real number that the float of
  \<open>time.time()\<close> stands for.\<close>

record SmartVisionBot =
  tts_engine :: TTSEngine
  identified :: bool
  current_person :: "ustr option"
  last_greeting_time :: real
  chat_history :: "message list"
  running :: bool
  chat_thread :: nat
  identify_calls :: nat
  stdout :: "ustr list"

text \<open>What \<open>datetime.now()\<close> returns, as far as \<open>greet_person\<close> looks at it; \<open>hour\<close> is
  below 24 and \<open>minute\<close> below 60.\<close>

record datetime =
  hour :: nat
  minute :: nat

definition two_digits :: "nat \<Rightarrow> ustr" where
  "two_digits n = [48 + n div 10, 48 + n mod 10]"

text \<open>\<open>strftime("%H:%M")\<close>.\<close>

definition strftime_HM :: "datetime \<Rightarrow> ustr" where
  "strftime_HM dt = two_digits (hour dt) @ ascii '':'' @ two_digits (minute dt)"

text \<open>The clock as one call of \<open>greet_person\<close> reads it: \<open>time.time()\<close> once, and
  \<open>datetime.now()\<close> for the text of the time, for the test \<open>hour < 12\<close> and, when that
  fails, for the test \<open>hour < 17\<close>.\<close>

record clock =
  time_time :: real
  now_text :: datetime
  now_morning :: datetime
  now_afternoon :: datetime

definition all_at :: "real \<Rightarrow> datetime \<Rightarrow> clock" where
  "all_at t dt = \<lparr>time_time = t, now_text = dt, now_morning = dt, now_afternoon = dt\<rparr>"

definition greeting_text :: "clock \<Rightarrow> ustr \<Rightarrow> ustr" where
  "greeting_text clk person_name =
     (let greeting_time = strftime_HM (now_text clk) in
      if hour (now_morning clk) < 12 then
        ascii ''Good morning '' @ person_name @ ascii ''! It's '' @ greeting_time
          @ ascii ''. How can I help you today?''
      else if hour (now_afternoon clk) < 17 then
        ascii ''Good afternoon '' @ person_name @ ascii ''! It's '' @ greeting_time
          @ ascii ''. What can I do for you?''
      else
        ascii ''Good evening '' @ person_name @ ascii ''! It's '' @ greeting_time
          @ ascii ''. How may I assist you?'')"

definition system_message :: "ustr \<Rightarrow> message" where
  "system_message person_name =
     \<lparr>role = ascii ''system'',
      content = ascii ''You are a helpful AI assistant talking to '' @ person_name
                  @ ascii ''. Be friendly and conversational.''\<rparr>"

definition greet_person :: "clock \<Rightarrow> ustr \<Rightarrow> SmartVisionBot \<Rightarrow> SmartVisionBot" where
  "greet_person clk person_name s =
     (let current_time = time_time clk in
      if current_time - last_greeting_time s < 15 then s
      else
        (let greeting = greeting_text clk person_name;
             (out, tts) = speak None greeting False (tts_engine s)
         in s\<lparr>stdout := stdout s @ [[0x1F916] @ ascii '': '' @ greeting] @ out,
               tts_engine := tts,
               last_greeting_time := current_time,
               identified := True,
               current_person := Some person_name,
               chat_history := [system_message person_name]\<rparr>))"

text \<open>\<open>detect_and_recognize\<close>. The detector and the recognizer are the environment:
  \<open>detect frame\<close> is the list of boxes, \<open>identify frame box\<close> the name or \<open>None\<close>.\<close>

definition detect_and_recognize ::
  "('f \<Rightarrow> 'b list) \<Rightarrow> ('f \<Rightarrow> 'b \<Rightarrow> ustr option) \<Rightarrow> 'f \<Rightarrow> SmartVisionBot
     \<Rightarrow> ustr option \<times> SmartVisionBot" where
  "detect_and_recognize detect identify frame s =
     (if identified s then (None, s)
      else (case detect frame of
              [] \<Rightarrow> (None, s)
            | box # boxes \<Rightarrow>
                (identify frame box, s\<lparr>identify_calls := identify_calls s + 1\<rparr>)))"

text \<open>One turn of the loop in \<open>run\<close>: \<open>frame\<close> is what \<open>video_stream.read()\<close> returned and
  \<open>key\<close> what \<open>cv2.waitKey(1) & 0xFF\<close> gives. The Boolean tells whether the loop goes on.
  The thread started on \<open>start_chat_session\<close> runs on its own; here it is counted.\<close>

definition run_step ::
  "('f \<Rightarrow> 'b list) \<Rightarrow> ('f \<Rightarrow> 'b \<Rightarrow> ustr option) \<Rightarrow> clock \<Rightarrow> 'f option \<Rightarrow> nat
     \<Rightarrow> SmartVisionBot \<Rightarrow> bool \<times> SmartVisionBot" where
  "run_step detect identify clk frame key s =
     (case frame of
        None \<Rightarrow> (True, s)
      | Some fr \<Rightarrow>
          (let s' =
             (if \<not> identified s then
                (case detect_and_recognize detect identify fr s of
                   (person_name, s1) \<Rightarrow>
                     (case person_name of
                        None \<Rightarrow> s1
                      | Some n \<Rightarrow>
                          if n = [] then s1
                          else (let s2 = greet_person clk n s1
                                in s2\<lparr>chat_thread := chat_thread s2 + 1\<rparr>)))
              else s)
           in (key \<noteq> of_char CHR ''q'', s')))"

text \<open>\<open>chat_router.process_query(user_input, self.chat_history, self.llm_client)\<close>: the
  class \<open>ChatRouter\<close> is not part of \<open>chatbot/router.py\<close>, so the call is a parameter. It
  returns a reply or raises, and since it is handed the list \<open>chat_history\<close> itself it may
  leave that list changed.\<close>

type_synonym router = "ustr \<Rightarrow> message list \<Rightarrow> (exn + ustr) \<times> message list"

datatype flow = Break | Continue

text \<open>How an f-string renders \<open>self.current_person\<close>.\<close>

definition person_str :: "ustr option \<Rightarrow> ustr" where
  "person_str p = (case p of None \<Rightarrow> ascii ''None'' | Some n \<Rightarrow> n)"

text \<open>The two handlers of the loop: \<open>except KeyboardInterrupt: break\<close> and
  \<open>except Exception as e: print(...)\<close>, after which the loop goes round again.\<close>

definition chat_except :: "exn \<Rightarrow> bool \<Rightarrow> SmartVisionBot \<Rightarrow> flow \<times> bool \<times> SmartVisionBot" where
  "chat_except e voice_enabled s =
     (case e of
        KeyboardInterrupt \<Rightarrow> (Break, voice_enabled, s)
      | _ \<Rightarrow> (Continue, voice_enabled,
               s\<lparr>stdout := stdout s @ [[0x274C] @ ascii '' Error in chat: '' @ exn_str e]\<rparr>))"

definition say_if :: "bool \<Rightarrow> ustr \<Rightarrow> SmartVisionBot \<Rightarrow> SmartVisionBot" where
  "say_if voice_enabled text s =
     (if voice_enabled then
        (case speak None text False (tts_engine s) of
           (out, tts) \<Rightarrow> s\<lparr>stdout := stdout s @ out, tts_engine := tts\<rparr>)
      else s)"

text \<open>The body of the \<open>while\<close> loop of \<open>start_chat_session\<close>; \<open>inp\<close> is what \<open>input\<close>
  returns or raises.\<close>

definition chat_turn ::
  "router \<Rightarrow> exn + ustr \<Rightarrow> bool \<Rightarrow> SmartVisionBot \<Rightarrow> flow \<times> bool \<times> SmartVisionBot" where
  "chat_turn process_query inp voice_enabled s0 =
     (let s = s0\<lparr>stdout := stdout s0 @ [[10] @ person_str (current_person s0) @ ascii '': '']\<rparr>
      in case inp of
           Inl e \<Rightarrow> chat_except e voice_enabled s
         | Inr line \<Rightarrow>
             (let user_input = strip line in
              if lower user_input \<in> set [ascii ''quit'', ascii ''exit'', ascii ''bye''] then
                (let farewell = ascii ''Goodbye '' @ person_str (current_person s)
                                  @ ascii ''! Have a great day!'';
                     s1 = s\<lparr>stdout := stdout s @ [[0x1F916] @ ascii '': '' @ farewell]\<rparr>
                 in (Break, voice_enabled, say_if voice_enabled farewell s1))
              else if lower user_input = ascii ''voice on'' then
                (Continue, True,
                 s\<lparr>stdout := stdout s @ [[0x1F916] @ ascii '': Voice responses enabled!'']\<rparr>)
              else if lower user_input = ascii ''voice off'' then
                (Continue, False,
                 s\<lparr>stdout := stdout s @ [[0x1F916] @ ascii '': Voice responses disabled!'']\<rparr>)
              else if user_input = [] then (Continue, voice_enabled, s)
              else
                (case process_query user_input (chat_history s) of
                   (Inl e, history) \<Rightarrow> chat_except e voice_enabled (s\<lparr>chat_history := history\<rparr>)
                 | (Inr response, history) \<Rightarrow>
                     (let s1 = s\<lparr>chat_history := history,
                                  stdout := stdout s @ [[0x1F916] @ ascii '': '' @ response]\<rparr>
                      in (Continue, voice_enabled, say_if voice_enabled response s1)))))"

text \<open>The loop \<open>while self.identified and self.running\<close> over the inputs received so far: it
  has either been left, or it waits in \<open>input\<close> for the next line.\<close>

datatype session = Finished SmartVisionBot | AwaitsInput bool SmartVisionBot

fun chat_loop :: "router \<Rightarrow> (exn + ustr) list \<Rightarrow> bool \<Rightarrow> SmartVisionBot \<Rightarrow> session" where
  "chat_loop process_query [] voice_enabled s =
     (if identified s \<and> running s then AwaitsInput voice_enabled s else Finished s)"
| "chat_loop process_query (inp # inps) voice_enabled s =
     (if identified s \<and> running s then
        (case chat_turn process_query inp voice_enabled s of
           (Break, v, s') \<Rightarrow> Finished s'
         | (Continue, v, s') \<Rightarrow> chat_loop process_query inps v s')
      else Finished s)"

definition start_chat_session :: "router \<Rightarrow> (exn + ustr) list \<Rightarrow> SmartVisionBot \<Rightarrow> session" where
  "start_chat_session process_query inputs s =
     (let s1 = s\<lparr>stdout := stdout s @
                  [[10, 0x1F4AC] @ ascii '' Chat session started with ''
                     @ person_str (current_person s),
                   ascii ''Type 'quit' or 'exit' to end the session'',
                   ascii ''Type 'voice on/off' to toggle voice responses'',
                   replicate 50 45]\<rparr>
      in case chat_loop process_query inputs True s1 of
           AwaitsInput v s2 \<Rightarrow> AwaitsInput v s2
         | Finished s2 \<Rightarrow>
             Finished (s2\<lparr>identified := False, current_person := None, chat_history := [],
                          stdout := stdout s2 @
                            [[10, 0x1F504]
                               @ ascii '' Chat session ended. Looking for faces again...'']\<rparr>))"

section \<open>\<open>chatbot/router.py\<close>\<close>

text \<open>The patterns of the four intent tests are alternatives of literal lower-case words
  between two \<open>\b\<close>, searched with \<open>re.I\<close>. \<open>\w\<close> is fixed on ASCII; for the code points
  above 127 it follows the Unicode tables of the \<open>re\<close> module, the parameter \<open>uw\<close>.\<close>

definition is_word :: "(nat \<Rightarrow> bool) \<Rightarrow> nat \<Rightarrow> bool" where
  "is_word uw c \<longleftrightarrow>
     (if c < 128 then (48 \<le> c \<and> c \<le> 57) \<or> (65 \<le> c \<and> c \<le> 90) \<or> c = 95 \<or> (97 \<le> c \<and> c \<le> 122)
      else uw c)"

definition word_boundary :: "(nat \<Rightarrow> bool) \<Rightarrow> ustr \<Rightarrow> nat \<Rightarrow> bool" where
  "word_boundary uw s i \<longleftrightarrow>
     (0 < i \<and> is_word uw (s ! (i - 1))) \<noteq> (i < length s \<and> is_word uw (s ! i))"

text \<open>A literal \<open>p\<close> of a pattern against a code point \<open>c\<close> of the text under \<open>re.I\<close>: the
  letter in either case, and the three letters that have a further case variant.\<close>

definition ci_eq :: "nat \<Rightarrow> nat \<Rightarrow> bool" where
  "ci_eq p c \<longleftrightarrow>
     c = p \<or> (97 \<le> p \<and> p \<le> 122 \<and> c + 32 = p)
     \<or> (p = 105 \<and> (c = 0x130 \<or> c = 0x131)) \<or> (p = 115 \<and> c = 0x17F)
     \<or> (p = 107 \<and> c = 0x212A)"

definition match_at :: "ustr \<Rightarrow> ustr \<Rightarrow> nat \<Rightarrow> bool" where
  "match_at w s i \<longleftrightarrow> i + length w \<le> length s \<and> list_all2 ci_eq w (take (length w) (drop i s))"

definition search_words :: "(nat \<Rightarrow> bool) \<Rightarrow> string list \<Rightarrow> ustr \<Rightarrow> bool" where
  "search_words uw words s \<longleftrightarrow>
     list_ex (\<lambda>i. list_ex (\<lambda>w. word_boundary uw s i \<and> match_at (ascii w) s i
                                 \<and> word_boundary uw s (i + length w)) words)
       [0..<Suc (length s)]"

definition is_weather :: "(nat \<Rightarrow> bool) \<Rightarrow> ustr \<Rightarrow> bool" where
  "is_weather uw q =
     search_words uw [''weather'', ''forecast'', ''temperature'', ''rain'', ''rainfall'',
                      ''sunrise'', ''sunset'', ''wind'', ''humidity''] q"

definition is_news :: "(nat \<Rightarrow> bool) \<Rightarrow> ustr \<Rightarrow> bool" where
  "is_news uw q = search_words uw [''news'', ''headlines'', ''breaking'', ''latest''] q"

definition is_finance :: "(nat \<Rightarrow> bool) \<Rightarrow> ustr \<Rightarrow> bool" where
  "is_finance uw q =
     search_words uw [''stock'', ''share'', ''price'', ''bitcoin'', ''crypto'', ''btc'', ''eth'',
                      ''market'', ''nifty'', ''sensex''] q"

definition is_fact :: "(nat \<Rightarrow> bool) \<Rightarrow> ustr \<Rightarrow> bool" where
  "is_fact uw q =
     search_words uw [''who'', ''what'', ''when'', ''where'', ''tell me about'', ''define'',
                      ''explain'', ''is it true''] q"

text \<open>\<open>k in s\<close> on strings.\<close>

definition contains :: "ustr \<Rightarrow> ustr \<Rightarrow> bool" where
  "contains s k \<longleftrightarrow> list_ex (\<lambda>i. take (length k) (drop i s) = k) [0..<Suc (length s)]"

text \<open>What \<open>news_mod.get_news\<close> hands back: a list of strings, or some other value, given
  by its \<open>str\<close>.\<close>

datatype news = Items "ustr list" | Other ustr

text \<open>The modules behind the router answer over the network; each call returns a value or
  raises. \<open>chatbot/facts.py\<close> defines no \<open>query_facts\<close>, so \<open>facts_mod.query_facts\<close> raises
  \<open>AttributeError\<close> as the sources stand (\<open>facts_missing\<close>); the parameter covers that and any
  function put there.\<close>

record modules =
  re_word :: "nat \<Rightarrow> bool"
  get_weather :: "ustr \<Rightarrow> exn + ustr"
  get_news :: "ustr \<Rightarrow> exn + news"
  extract_ticker :: "ustr \<Rightarrow> exn + ustr option"
  get_price_for_ticker :: "ustr \<Rightarrow> exn + ustr"
  query_facts :: "ustr \<Rightarrow> exn + ustr option"
  query_groq :: "ustr \<Rightarrow> exn + ustr"

definition facts_missing :: "ustr \<Rightarrow> exn + ustr option" where
  "facts_missing q =
     Inl (Error (ascii ''module 'chatbot.facts' has no attribute 'query_facts'' @ [39]))"

text \<open>\<open>try: body except Exception as e: handler\<close>.\<close>

definition try_except :: "exn + 'a \<Rightarrow> (exn \<Rightarrow> exn + 'a) \<Rightarrow> exn + 'a" where
  "try_except body handler =
     (case body of
        Inl e \<Rightarrow> if is_Exception e then handler e else Inl e
      | Inr v \<Rightarrow> Inr v)"

definition sorry_reply :: "ustr \<times> ustr" where
  "sorry_reply =
     (ascii ''system'', ascii ''Sorry '' @ [0x2014] @ ascii '' I couldn't answer that right now.'')"

definition ask_ticker :: "ustr \<times> ustr" where
  "ask_ticker =
     (ascii ''finance'',
      ascii ''Please specify a company or ticker (e.g., 'Tata Motors', 'AAPL', 'BTC').'')"

text \<open>A step that either returns from \<open>route\<close> (\<open>Some\<close>) or lets control go on to the
  statements after it (\<open>None\<close>).\<close>

definition or_else :: "exn + 'a option \<Rightarrow> exn + 'a \<Rightarrow> exn + 'a" where
  "or_else step rest =
     (case step of
        Inl e \<Rightarrow> Inl e
      | Inr (Some r) \<Rightarrow> Inr r
      | Inr None \<Rightarrow> rest)"

text \<open>Step 5 of \<open>route\<close> and the final \<open>return\<close>.\<close>

definition route_llm :: "modules \<Rightarrow> ustr \<Rightarrow> exn + ustr \<times> ustr" where
  "route_llm m q =
     or_else
       (try_except
          (case query_groq m q of
             Inl e \<Rightarrow> Inl e
           | Inr ai_resp \<Rightarrow> Inr (if ai_resp \<noteq> [] then Some (ascii ''ai'', ai_resp) else None))
          (\<lambda>e. Inr None))
       (Inr sorry_reply)"

text \<open>Step 4: the facts lookup, when the query asks for a fact or for something current.\<close>

definition route_facts :: "modules \<Rightarrow> ustr \<Rightarrow> exn + (ustr \<times> ustr) option" where
  "route_facts m q =
     (if is_fact (re_word m) q
         \<or> list_ex (\<lambda>k. contains (lower q) (ascii k))
              [''current'', ''latest'', ''today'', ''now'', ''as of'']
      then
        try_except
          (case query_facts m q of
             Inl e \<Rightarrow> Inl e
           | Inr found \<Rightarrow>
               Inr (case found of
                      Some f \<Rightarrow> if f \<noteq> [] then Some (ascii ''fact'', f) else None
                    | None \<Rightarrow> None))
          (\<lambda>e. Inr None)
      else Inr None)"

definition route_body :: "modules \<Rightarrow> ustr \<Rightarrow> exn + ustr \<times> ustr" where
  "route_body m q =
     (if is_weather (re_word m) q then
        try_except
          (case get_weather m q of
             Inl e \<Rightarrow> Inl e
           | Inr text \<Rightarrow> Inr (ascii ''weather'', text))
          (\<lambda>e. Inr (ascii ''system'', ascii ''Weather module error: '' @ exn_str e))
      else if is_news (re_word m) q then
        try_except
          (case get_news m q of
             Inl e \<Rightarrow> Inl e
           | Inr (Items news_items) \<Rightarrow> Inr (ascii ''gnews'', join [10, 10] news_items)
           | Inr (Other text) \<Rightarrow> Inr (ascii ''gnews'', text))
          (\<lambda>e. Inr (ascii ''system'', ascii ''News module error: '' @ exn_str e))
      else if is_finance (re_word m) q then
        try_except
          (case extract_ticker m q of
             Inl e \<Rightarrow> Inl e
           | Inr ticker \<Rightarrow>
               (case ticker of
                  Some t \<Rightarrow>
                    if t \<noteq> [] then
                      (case get_price_for_ticker m t of
                         Inl e \<Rightarrow> Inl e
                       | Inr price \<Rightarrow> Inr (ascii ''finance'', price))
                    else Inr ask_ticker
                | None \<Rightarrow> Inr ask_ticker))
          (\<lambda>e. Inr (ascii ''system'', ascii ''Finance module error: '' @ exn_str e))
      else or_else (route_facts m q) (route_llm m q))"

text \<open>\<open>route(query, chat_history)\<close>; \<open>query\<close> is a string or \<open>None\<close>, and \<open>history\<close>
  stands for the argument \<open>chat_history\<close>, which the function never reads.\<close>

definition route :: "modules \<Rightarrow> ustr option \<Rightarrow> 'h \<Rightarrow> exn + ustr \<times> ustr" where
  "route m query history =
     (let q = strip (case query of None \<Rightarrow> [] | Some text \<Rightarrow> text)
      in try_except (route_body m q)
           (\<lambda>e. Inr (ascii ''system'', ascii ''Router error: '' @ exn_str e)))"

section \<open>An environment for the examples\<close>

text \<open>Modules as they answer in the examples: the facts lookup is the missing attribute
  of \<open>chatbot/facts.py\<close>, the weather service fails, and the language model answers.\<close>

definition weather_down :: "ustr \<Rightarrow> exn + ustr" where
  "weather_down q = Inl (Error (ascii ''connection refused''))"

definition no_news :: "ustr \<Rightarrow> exn + news" where
  "no_news q = Inr (Items [])"

definition no_ticker :: "ustr \<Rightarrow> exn + ustr option" where
  "no_ticker q = Inr None"

definition no_price :: "ustr \<Rightarrow> exn + ustr" where
  "no_price t = Inr (ascii ''Price not found'')"

definition llm_answers :: "ustr \<Rightarrow> exn + ustr" where
  "llm_answers q = Inr (ascii ''Ada Lovelace was a mathematician.'')"

definition news_down :: "ustr \<Rightarrow> exn + news" where
  "news_down q = Inl (Error (ascii ''quota exceeded''))"

definition ticker_down :: "ustr \<Rightarrow> exn + ustr option" where
  "ticker_down q = Inl (Error (ascii ''no module named yfinance''))"

definition llm_down :: "ustr \<Rightarrow> exn + ustr" where
  "llm_down q = Inl (Error (ascii ''timed out''))"

definition ascii_only :: "nat \<Rightarrow> bool" where
  "ascii_only c = False"

definition example_modules :: modules where
  "example_modules =
     \<lparr>re_word = ascii_only, get_weather = weather_down, get_news = no_news,
      extract_ticker = no_ticker, get_price_for_ticker = no_price,
      query_facts = facts_missing, query_groq = llm_answers\<rparr>"

section \<open>Initial states\<close>

text \<open>\<open>TTSEngine.__init__\<close>; \<open>engine_ok\<close> tells whether \<open>pyttsx3.init()\<close> succeeded (when it
  raises, \<open>initialize_engine\<close> leaves \<open>self.engine = None\<close>).\<close>

definition TTSEngine_init :: "bool \<Rightarrow> TTSEngine" where
  "TTSEngine_init engine_ok =
     \<lparr>engine = engine_ok, speech_queue = [], is_speaking = False, stop_speaking = False,
      spoken = []\<rparr>"

text \<open>\<open>SmartVisionBot.__init__\<close>, with \<open>stdout\<close> counted from there on.\<close>

definition SmartVisionBot_init :: "bool \<Rightarrow> SmartVisionBot" where
  "SmartVisionBot_init engine_ok =
     \<lparr>tts_engine = TTSEngine_init engine_ok, identified = False, current_person = None,
      last_greeting_time = 0, chat_history = [], running = True, chat_thread = 0,
      identify_calls = 0, stdout = []\<rparr>"

section \<open>Properties of the frame buffer\<close>





lemma update_step_unbounded:
  assumes "maxsize (Q vs) \<le> 0"
  shows "update_step (True, frame) vs = Returns (vs\<lparr>Q := (Q vs)\<lparr>items := items (Q vs) @ [frame]\<rparr>\<rparr>)"
  using assms by (simp add: update_step_def queue_full_def queue_put_def)

lemma update_unbounded:
  assumes "maxsize (Q vs) \<le> 0" and "\<not> stopped vs"
  shows "VideoStream_update (map (Pair True) fs) vs
           = Returns (vs\<lparr>Q := (Q vs)\<lparr>items := items (Q vs) @ fs\<rparr>\<rparr>)"
  using assms
proof (induction fs arbitrary: vs)
  case Nil
  then show ?case by simp
next
  case (Cons f fs)
  let ?vs1 = "vs\<lparr>Q := (Q vs)\<lparr>items := items (Q vs) @ [f]\<rparr>\<rparr>"
  have "maxsize (Q ?vs1) \<le> 0" and "\<not> stopped ?vs1"
    using Cons.prems by simp_all
  from Cons.IH [OF this] update_step_unbounded [OF Cons.prems(1), of f] Cons.prems(2)
  show ?case by simp
qed

text \<open>
  C7, the claim as it stands fails: a queue size of 0 is accepted, and the buffer that
  comes back takes frames.
\<close>

theorem init_zero_counterexample:
  "VideoStream_init 0 = Inr (\<lparr>Q = \<lparr>maxsize = 0, items = []\<rparr>, stopped = False\<rparr> :: nat VideoStream)
   \<and> VideoStream_update [(True, 1), (True, 2)] \<lparr>Q = \<lparr>maxsize = 0, items = []\<rparr>, stopped = False\<rparr>
       = Returns \<lparr>Q = \<lparr>maxsize = 0, items = [1, 2 :: nat]\<rparr>, stopped = False\<rparr>"
  by (simp add: VideoStream_init_def Queue_init_def update_step_def queue_full_def queue_put_def)

text \<open>
  C7, as the code has it: the constructor accepts the queue size 0 and returns a buffer
  that is never full, so that every frame pushed is kept and none is evicted.
\<close>

theorem init_zero_unbounded:
  "\<exists>vs0. VideoStream_init 0 = Inr vs0 \<and> maxsize (Q vs0) = 0 \<and> items (Q vs0) = []
         \<and> (\<forall>fs :: 'f list. VideoStream_update (map (Pair True) fs) vs0
                               = Returns (vs0\<lparr>Q := (Q vs0)\<lparr>items := fs\<rparr>\<rparr>))"
proof -
  let ?vs0 = "\<lparr>Q = Queue_init 0, stopped = False\<rparr> :: 'f VideoStream"
  have m: "maxsize (Q ?vs0) \<le> 0" and n: "\<not> stopped ?vs0"
    by (simp_all add: Queue_init_def)
  have "VideoStream_update (map (Pair True) fs) ?vs0
          = Returns (?vs0\<lparr>Q := (Q ?vs0)\<lparr>items := fs\<rparr>\<rparr>)" for fs
    using update_unbounded [OF m n, of fs] by (simp add: Queue_init_def)
  then show ?thesis
    by (simp add: VideoStream_init_def Queue_init_def)
qed

text \<open>
  C6, the claim as it stands fails: on an empty buffer \<open>read\<close> after \<open>stop\<close> gives \<open>None\<close>,
  the very value a timeout gives on a buffer that was never stopped; and a frame still
  buffered at \<open>stop\<close> is handed out afterwards.
\<close>

theorem read_after_stop_counterexample:
  "VideoStream_read None (VideoStream_stop \<lparr>Q = \<lparr>maxsize = 5, items = []\<rparr>, stopped = False\<rparr>)
     = (None :: nat option, \<lparr>Q = \<lparr>maxsize = 5, items = []\<rparr>, stopped = True\<rparr>)
   \<and> VideoStream_read None \<lparr>Q = \<lparr>maxsize = 5, items = []\<rparr>, stopped = False\<rparr>
     = (None :: nat option, \<lparr>Q = \<lparr>maxsize = 5, items = []\<rparr>, stopped = False\<rparr>)
   \<and> VideoStream_read None (VideoStream_stop \<lparr>Q = \<lparr>maxsize = 5, items = [7]\<rparr>, stopped = False\<rparr>)
     = (Some (7 :: nat), \<lparr>Q = \<lparr>maxsize = 5, items = []\<rparr>, stopped = True\<rparr>)"
  by (simp add: VideoStream_read_def VideoStream_stop_def queue_get_def)

text \<open>
  C6, as the code has it: \<open>read\<close> returns the oldest buffered frame, or else the frame
  that arrives within the timeout, or else \<open>None\<close>; it always returns; and after \<open>stop\<close> it
  answers exactly as before, with no value of its own for a closed buffer.
\<close>

theorem read_oldest_or_none:
  "fst (VideoStream_read arrival vs) = (case items (Q vs) of x # xs \<Rightarrow> Some x | [] \<Rightarrow> arrival)
   \<and> items (Q (snd (VideoStream_read arrival vs))) = tl (items (Q vs))
   \<and> VideoStream_read arrival (VideoStream_stop vs)
       = (fst (VideoStream_read arrival vs), VideoStream_stop (snd (VideoStream_read arrival vs)))"
  by (cases "items (Q vs)"; cases arrival)
     (simp_all add: VideoStream_read_def VideoStream_stop_def queue_get_def)

section \<open>Properties of the speech queue\<close>

lemma clear_queue_empty: "clear_queue q = []"
  by (induction q) simp_all

text \<open>
  C5, the claim as it stands fails: with no playback active and one utterance queued,
  \<open>stop_current_speech\<close> changes nothing, and \<open>is_busy\<close> is still true afterwards.
\<close>

theorem stop_idle_counterexample:
  "stop_current_speech None
     \<lparr>engine = True, speech_queue = [ascii ''hello''], is_speaking = False,
      stop_speaking = False, spoken = []\<rparr>
   = ([], \<lparr>engine = True, speech_queue = [ascii ''hello''], is_speaking = False,
           stop_speaking = False, spoken = []\<rparr>)
   \<and> is_busy (snd (stop_current_speech None
         \<lparr>engine = True, speech_queue = [ascii ''hello''], is_speaking = False,
          stop_speaking = False, spoken = []\<rparr>))"
  by (simp add: stop_current_speech_def is_busy_def)

text \<open>
  C5, as the code has it: when an engine is there, a playback is in progress and
  \<open>engine.stop()\<close> returns, \<open>stop_current_speech\<close> empties the queue and clears
  \<open>is_speaking\<close>, so that \<open>is_busy\<close> is false right after the call; when no playback is in
  progress the call is without effect, whatever is queued.
\<close>

theorem stop_current_speech_effect:
  "(engine t \<and> is_speaking t \<longrightarrow>
      snd (stop_current_speech None t) = t\<lparr>speech_queue := [], is_speaking := False\<rparr>
      \<and> \<not> is_busy (snd (stop_current_speech None t)))
   \<and> (\<not> is_speaking t \<longrightarrow> stop_current_speech stop_exn t = ([], t))"
  by (simp add: stop_current_speech_def is_busy_def clear_queue_empty)

theorem stop_current_speech_effect_witness:
  "engine \<lparr>engine = True, speech_queue = [ascii ''one'', ascii ''two''], is_speaking = True,
           stop_speaking = False, spoken = [ascii ''zero'']\<rparr>
   \<and> is_speaking \<lparr>engine = True, speech_queue = [ascii ''one'', ascii ''two''],
                  is_speaking = True, stop_speaking = False, spoken = [ascii ''zero'']\<rparr>
   \<and> snd (stop_current_speech None
        \<lparr>engine = True, speech_queue = [ascii ''one'', ascii ''two''], is_speaking = True,
         stop_speaking = False, spoken = [ascii ''zero'']\<rparr>)
       = \<lparr>engine = True, speech_queue = [], is_speaking = False, stop_speaking = False,
          spoken = [ascii ''zero'']\<rparr>
   \<and> \<not> is_busy (snd (stop_current_speech None
        \<lparr>engine = True, speech_queue = [ascii ''one'', ascii ''two''], is_speaking = True,
         stop_speaking = False, spoken = [ascii ''zero'']\<rparr>))
   \<and> \<not> is_speaking (TTSEngine_init True\<lparr>speech_queue := [ascii ''one'']\<rparr>)
   \<and> stop_current_speech None (TTSEngine_init True\<lparr>speech_queue := [ascii ''one'']\<rparr>)
       = ([], TTSEngine_init True\<lparr>speech_queue := [ascii ''one'']\<rparr>)"
  using stop_current_speech_effect
          [of "\<lparr>engine = True, speech_queue = [ascii ''one'', ascii ''two''], is_speaking = True,
                stop_speaking = False, spoken = [ascii ''zero'']\<rparr>" None]
        stop_current_speech_effect [of "TTSEngine_init True\<lparr>speech_queue := [ascii ''one'']\<rparr>" None]
  by (simp add: TTSEngine_init_def is_busy_def)

section \<open>Properties of the session state machine\<close>

text \<open>
  C1. A call of \<open>greet_person\<close> less than 15 seconds after the last accepted greeting
  leaves the whole state as it is, whatever the name: \<open>identified\<close>, \<open>current_person\<close>,
  \<open>last_greeting_time\<close> and \<open>chat_history\<close> keep their values, nothing is put on the speech
  queue and nothing is printed.
\<close>

theorem greet_person_debounced:
  assumes "time_time clk - last_greeting_time s < 15"
  shows "greet_person clk person_name s = s"
  using assms by (simp add: greet_person_def)

theorem greet_person_debounced_witness:
  "time_time (all_at 110 \<lparr>hour = 9, minute = 5\<rparr>)
     - last_greeting_time (SmartVisionBot_init True\<lparr>last_greeting_time := 100\<rparr>) < 15
   \<and> greet_person (all_at 110 \<lparr>hour = 9, minute = 5\<rparr>) (ascii ''Ada'')
         (SmartVisionBot_init True\<lparr>last_greeting_time := 100\<rparr>)
       = SmartVisionBot_init True\<lparr>last_greeting_time := 100\<rparr>"
proof -
  have h: "time_time (all_at 110 \<lparr>hour = 9, minute = 5\<rparr>)
             - last_greeting_time (SmartVisionBot_init True\<lparr>last_greeting_time := 100\<rparr>) < 15"
    by (simp add: all_at_def)
  from greet_person_debounced [OF h] h show ?thesis by simp
qed

text \<open>
  C4. While \<open>identified\<close> is true, \<open>detect_and_recognize\<close> returns \<open>None\<close> without calling
  the recognizer, and a turn of the main loop leaves the state as it is for every frame
  and every name the recognizer would give: no greeting, no further chat thread.
\<close>

theorem no_recognition_while_identified:
  assumes "identified s"
  shows "detect_and_recognize detect identify frame s = (None, s)
         \<and> run_step detect identify clk (Some frame) key s = (key \<noteq> of_char CHR ''q'', s)
         \<and> run_step detect identify clk None key s = (True, s)"
  using assms by (simp add: detect_and_recognize_def run_step_def)

theorem no_recognition_while_identified_witness:
  "identified (SmartVisionBot_init True\<lparr>identified := True, current_person := Some (ascii ''Ada'')\<rparr>)
   \<and> detect_and_recognize (\<lambda>f. [f]) (\<lambda>f b. Some (ascii ''Bob'')) (0 :: nat)
         (SmartVisionBot_init True\<lparr>identified := True, current_person := Some (ascii ''Ada'')\<rparr>)
       = (None, SmartVisionBot_init True\<lparr>identified := True, current_person := Some (ascii ''Ada'')\<rparr>)
   \<and> run_step (\<lambda>f. [f]) (\<lambda>f b. Some (ascii ''Bob'')) (all_at 100 \<lparr>hour = 9, minute = 5\<rparr>)
         (Some (0 :: nat)) 255
         (SmartVisionBot_init True\<lparr>identified := True, current_person := Some (ascii ''Ada'')\<rparr>)
       = (True, SmartVisionBot_init True\<lparr>identified := True, current_person := Some (ascii ''Ada'')\<rparr>)"
proof -
  have h: "identified (SmartVisionBot_init True\<lparr>identified := True,
                         current_person := Some (ascii ''Ada'')\<rparr>)"
    by simp
  from no_recognition_while_identified
         [OF h, of "\<lambda>f. [f]" "\<lambda>f b. Some (ascii ''Bob'')" "0 :: nat"
            "all_at 100 \<lparr>hour = 9, minute = 5\<rparr>" 255] h
  show ?thesis by simp
qed

lemma chat_except_Exception:
  assumes "is_Exception e"
  shows "chat_except e voice_enabled s
           = (Continue, voice_enabled,
              s\<lparr>stdout := stdout s @ [[0x274C] @ ascii '' Error in chat: '' @ exn_str e]\<rparr>)"
  using assms by (cases e) (simp_all add: chat_except_def)

text \<open>
  C8. In a turn whose input is a query (not one of the reserved commands, not empty) and
  in which the router raises an \<open>Exception\<close>, the exception is caught, one line
  \<open>Error in chat: ...\<close> is printed, and the loop goes on with the next input:
  \<open>identified\<close>, \<open>running\<close>, \<open>current_person\<close> and the speech engine are as they were.
\<close>

theorem chat_turn_router_failure:
  assumes "identified s" and "running s"
    and "lower (strip line) \<notin> set [ascii ''quit'', ascii ''exit'', ascii ''bye'',
                                      ascii ''voice on'', ascii ''voice off'']"
    and "strip line \<noteq> []"
    and "process_query (strip line) (chat_history s) = (Inl e, history)"
    and "is_Exception e"
  shows "\<exists>s'. chat_turn process_query (Inr line) voice_enabled s = (Continue, voice_enabled, s')
           \<and> stdout s' = stdout s @ [[10] @ person_str (current_person s) @ ascii '': '',
                                      [0x274C] @ ascii '' Error in chat: '' @ exn_str e]
           \<and> identified s' \<and> running s' \<and> current_person s' = current_person s
           \<and> tts_engine s' = tts_engine s \<and> chat_history s' = history
           \<and> chat_loop process_query (Inr line # inputs) voice_enabled s
                 = chat_loop process_query inputs voice_enabled s'"
proof -
  let ?s1 = "s\<lparr>stdout := stdout s @ [[10] @ person_str (current_person s) @ ascii '': '']\<rparr>"
  let ?s' = "?s1\<lparr>chat_history := history,
                  stdout := stdout ?s1 @ [[0x274C] @ ascii '' Error in chat: '' @ exn_str e]\<rparr>"
  have t: "chat_turn process_query (Inr line) voice_enabled s = (Continue, voice_enabled, ?s')"
    using assms(3-5) chat_except_Exception [OF assms(6)]
    by (simp add: chat_turn_def Let_def)
  moreover have "chat_loop process_query (Inr line # inputs) voice_enabled s
                   = chat_loop process_query inputs voice_enabled ?s'"
    using assms(1,2) t by simp
  ultimately show ?thesis
    using assms(1,2) by (intro exI [of _ ?s']) simp
qed

theorem chat_turn_router_failure_witness:
  "\<exists>s'. chat_turn (\<lambda>q h. (Inl (Error (ascii ''timed out'')), h)) (Inr (ascii '' hello ''))
            True (SmartVisionBot_init True\<lparr>identified := True,
                                          current_person := Some (ascii ''Ada'')\<rparr>)
          = (Continue, True, s')
        \<and> stdout s' = [[10] @ ascii ''Ada'' @ ascii '': '',
                       [0x274C] @ ascii '' Error in chat: '' @ ascii ''timed out'']
        \<and> identified s' \<and> running s' \<and> current_person s' = Some (ascii ''Ada'')
        \<and> chat_loop (\<lambda>q h. (Inl (Error (ascii ''timed out'')), h)) [Inr (ascii '' hello '')]
              True (SmartVisionBot_init True\<lparr>identified := True,
                                            current_person := Some (ascii ''Ada'')\<rparr>)
            = AwaitsInput True s'"
proof -
  let ?s = "SmartVisionBot_init True\<lparr>identified := True, current_person := Some (ascii ''Ada'')\<rparr>"
  let ?pq = "\<lambda>(q :: ustr) (h :: message list). (Inl (Error (ascii ''timed out'')) :: exn + ustr, h)"
  have h1: "identified ?s" and h2: "running ?s"
    by (simp_all add: SmartVisionBot_init_def)
  have st: "strip (ascii '' hello '') = ascii ''hello''"
    by (simp add: strip_def ascii_def is_space_def)
  have h3: "lower (strip (ascii '' hello '')) \<notin> set [ascii ''quit'', ascii ''exit'', ascii ''bye'',
                                      ascii ''voice on'', ascii ''voice off'']"
    unfolding st by (simp add: lower_def lower_cp_def ascii_def)
  have h4: "strip (ascii '' hello '') \<noteq> []"
    unfolding st by (simp add: ascii_def)
  have h5: "?pq (strip (ascii '' hello '')) (chat_history ?s)
              = (Inl (Error (ascii ''timed out'')), chat_history ?s)"
    by simp
  have h6: "is_Exception (Error (ascii ''timed out''))"
    by simp
  from chat_turn_router_failure
         [where process_query = ?pq and voice_enabled = True and inputs = "[]",
          OF h1 h2 h3 h4 h5 h6]
  obtain s' where "chat_turn ?pq (Inr (ascii '' hello '')) True ?s = (Continue, True, s')"
    and "stdout s' = stdout ?s @ [[10] @ person_str (current_person ?s) @ ascii '': '',
                                  [0x274C] @ ascii '' Error in chat: ''
                                    @ exn_str (Error (ascii ''timed out''))]"
    and "identified s'" and "running s'" and "current_person s' = current_person ?s"
    and "chat_loop ?pq [Inr (ascii '' hello '')] True ?s = chat_loop ?pq [] True s'"
    by blast
  then show ?thesis
    by (intro exI [of _ s']) (simp add: SmartVisionBot_init_def person_str_def)
qed

lemma strip_nonempty:
  assumes "\<not> is_space c"
  shows "strip (c # s) \<noteq> []"
  using assms by (simp add: strip_def dropWhile_append)

lemma greeting_text_not_blank:
  "greeting_text clk person_name \<noteq> [] \<and> strip (greeting_text clk person_name) \<noteq> []"
proof -
  have g: "\<not> is_space 71" by (simp add: is_space_def)
  have "\<exists>rest. greeting_text clk person_name = 71 # rest"
    by (simp add: greeting_text_def Let_def ascii_def)
  then obtain rest where "greeting_text clk person_name = 71 # rest" ..
  with strip_nonempty [OF g] show ?thesis by simp
qed

lemma speak_greeting:
  "speak stop_exn (greeting_text clk person_name) False t =
     (if engine t
      then ([], t\<lparr>speech_queue := speech_queue t
                      @ [clean_text_for_speech (greeting_text clk person_name)]\<rparr>)
      else ([[0x1F916] @ ascii '': '' @ greeting_text clk person_name], t))"
  using greeting_text_not_blank [of clk person_name]
  by (simp add: speak_def Let_def)

text \<open>
  C3, the claim as it stands fails: when the speech engine could not be initialised
  (\<open>self.engine\<close> is \<open>None\<close>), a greeting accepted after more than 15 seconds puts no
  utterance on the speech queue.
\<close>

theorem greeting_not_enqueued_counterexample:
  "\<not> (time_time (all_at 100 \<lparr>hour = 9, minute = 5\<rparr>)
        - last_greeting_time (SmartVisionBot_init False) < 15)
   \<and> identified (greet_person (all_at 100 \<lparr>hour = 9, minute = 5\<rparr>) (ascii ''Ada'')
                   (SmartVisionBot_init False))
   \<and> speech_queue (tts_engine (greet_person (all_at 100 \<lparr>hour = 9, minute = 5\<rparr>) (ascii ''Ada'')
                                   (SmartVisionBot_init False))) = []"
  by (simp add: greet_person_def Let_def speak_greeting all_at_def SmartVisionBot_init_def
        TTSEngine_init_def)

text \<open>
  C3, as the code has it. A call of \<open>greet_person\<close> at least 15 seconds after the last
  accepted greeting, with the clock at \<open>dt\<close>: the greeting is the morning text when the hour
  is below 12, the afternoon text when it is from 12 to 16, the evening text from 17 on,
  each with the name and the time as \<open>HH:MM\<close> in it; \<open>last_greeting_time\<close> becomes the
  current time, \<open>identified\<close> becomes true, \<open>current_person\<close> the name, and \<open>chat_history\<close>
  the one system message that names the person. With a speech engine, exactly one
  utterance, the cleaned greeting, is added to the speech queue; without one, the greeting
  is printed a second time and the queue is left alone.
\<close>

theorem greet_person_accepted:
  assumes "15 \<le> t - last_greeting_time s"
  shows "let g = (if hour dt < 12 then
                    ascii ''Good morning '' @ person_name @ ascii ''! It's ''
                      @ [48 + hour dt div 10, 48 + hour dt mod 10, 58,
                         48 + minute dt div 10, 48 + minute dt mod 10]
                      @ ascii ''. How can I help you today?''
                  else if hour dt < 17 then
                    ascii ''Good afternoon '' @ person_name @ ascii ''! It's ''
                      @ [48 + hour dt div 10, 48 + hour dt mod 10, 58,
                         48 + minute dt div 10, 48 + minute dt mod 10]
                      @ ascii ''. What can I do for you?''
                  else
                    ascii ''Good evening '' @ person_name @ ascii ''! It's ''
                      @ [48 + hour dt div 10, 48 + hour dt mod 10, 58,
                         48 + minute dt div 10, 48 + minute dt mod 10]
                      @ ascii ''. How may I assist you?'');
             s' = greet_person (all_at t dt) person_name s
         in last_greeting_time s' = t
            \<and> identified s'
            \<and> current_person s' = Some person_name
            \<and> chat_history s' =
                 [\<lparr>role = ascii ''system'',
                   content = ascii ''You are a helpful AI assistant talking to '' @ person_name
                               @ ascii ''. Be friendly and conversational.''\<rparr>]
            \<and> speech_queue (tts_engine s') =
                 (if engine (tts_engine s)
                  then speech_queue (tts_engine s) @ [clean_text_for_speech g]
                  else speech_queue (tts_engine s))
            \<and> stdout s' =
                 stdout s @ ([0x1F916] @ ascii '': '' @ g)
                   # (if engine (tts_engine s) then [] else [[0x1F916] @ ascii '': '' @ g])
            \<and> running s' = running s \<and> chat_thread s' = chat_thread s"
proof -
  have g: "greeting_text (all_at t dt) person_name =
             (if hour dt < 12 then
                ascii ''Good morning '' @ person_name @ ascii ''! It's ''
                  @ [48 + hour dt div 10, 48 + hour dt mod 10, 58,
                     48 + minute dt div 10, 48 + minute dt mod 10]
                  @ ascii ''. How can I help you today?''
              else if hour dt < 17 then
                ascii ''Good afternoon '' @ person_name @ ascii ''! It's ''
                  @ [48 + hour dt div 10, 48 + hour dt mod 10, 58,
                     48 + minute dt div 10, 48 + minute dt mod 10]
                  @ ascii ''. What can I do for you?''
              else
                ascii ''Good evening '' @ person_name @ ascii ''! It's ''
                  @ [48 + hour dt div 10, 48 + hour dt mod 10, 58,
                     48 + minute dt div 10, 48 + minute dt mod 10]
                  @ ascii ''. How may I assist you?'')"
    by (simp add: greeting_text_def all_at_def strftime_HM_def two_digits_def Let_def ascii_def)
  have n: "\<not> (time_time (all_at t dt) - last_greeting_time s < 15)"
    using assms by (simp add: all_at_def)
  have "greet_person (all_at t dt) person_name s =
          s\<lparr>stdout := stdout s
                 @ [[0x1F916] @ ascii '': '' @ greeting_text (all_at t dt) person_name]
                 @ fst (speak None (greeting_text (all_at t dt) person_name) False (tts_engine s)),
            tts_engine := snd (speak None (greeting_text (all_at t dt) person_name) False
                                 (tts_engine s)),
            last_greeting_time := t,
            identified := True,
            current_person := Some person_name,
            chat_history := [system_message person_name]\<rparr>"
    using n by (simp add: greet_person_def Let_def case_prod_beta all_at_def)
  then show ?thesis
    unfolding Let_def g [symmetric]
    by (simp add: speak_greeting system_message_def)
qed
lemma clean_text_for_speech_unfold:
  "clean_text_for_speech text =
     strip (join (ascii '' '')
       (split (foldl (\<lambda>t (symbol, word). replace symbol word t)
                 (filter (\<lambda>c. \<not> emoji c) text) replacements)))"
  unfolding clean_text_for_speech_def Let_def ..

theorem greet_person_accepted_witness:
  "15 \<le> 100 - last_greeting_time (SmartVisionBot_init True)
   \<and> last_greeting_time (greet_person (all_at 100 \<lparr>hour = 14, minute = 30\<rparr>) (ascii ''Ada'')
                            (SmartVisionBot_init True)) = 100
   \<and> identified (greet_person (all_at 100 \<lparr>hour = 14, minute = 30\<rparr>) (ascii ''Ada'')
                   (SmartVisionBot_init True))
   \<and> current_person (greet_person (all_at 100 \<lparr>hour = 14, minute = 30\<rparr>) (ascii ''Ada'')
                       (SmartVisionBot_init True)) = Some (ascii ''Ada'')
   \<and> chat_history (greet_person (all_at 100 \<lparr>hour = 14, minute = 30\<rparr>) (ascii ''Ada'')
                     (SmartVisionBot_init True))
       = [\<lparr>role = ascii ''system'',
           content = ascii ''You are a helpful AI assistant talking to Ada. Be friendly and conversational.''\<rparr>]
   \<and> speech_queue (tts_engine (greet_person (all_at 100 \<lparr>hour = 14, minute = 30\<rparr>) (ascii ''Ada'')
                                   (SmartVisionBot_init True)))
       = [ascii ''Good afternoon Ada! It's 14:30. What can I do for you?'']
   \<and> stdout (greet_person (all_at 100 \<lparr>hour = 14, minute = 30\<rparr>) (ascii ''Ada'')
               (SmartVisionBot_init True))
       = [[0x1F916] @ ascii '': Good afternoon Ada! It's 14:30. What can I do for you?'']"
proof -
  have h: "15 \<le> 100 - last_greeting_time (SmartVisionBot_init True)"
    by (simp add: SmartVisionBot_init_def)
  have c: "clean_text_for_speech (ascii ''Good afternoon Ada! It's 14:30. What can I do for you?'')
             = ascii ''Good afternoon Ada! It's 14:30. What can I do for you?''"
    unfolding clean_text_for_speech_unfold
    by (simp add: ascii_def replacements_def split_def is_space_def emoji_def strip_def
          replace.simps)
  from greet_person_accepted
         [OF h, of "\<lparr>hour = 14, minute = 30\<rparr>" "ascii ''Ada''"] h c
  show ?thesis
    by (simp add: Let_def SmartVisionBot_init_def TTSEngine_init_def ascii_def)
qed

section \<open>Properties of the text cleaning\<close>

lemma set_replace: "set (replace old new s) \<subseteq> set s \<union> set new"
proof (induction old new s rule: replace.induct)
  case (1 old new s)
  show ?case
  proof (cases "old = []")
    case True
    then show ?thesis
      by (subst replace.simps) auto
  next
    case old: False
    show ?thesis
    proof (cases "s = []")
      case True
      with old show ?thesis by (subst replace.simps) simp
    next
      case s: False
      show ?thesis
      proof (cases "take (length old) s = old")
        case True
        from "1.IH"(1) [OF old s True] set_drop_subset [of "length old" s]
        have "set (replace old new (drop (length old) s)) \<subseteq> set s \<union> set new"
          by blast
        with old s True show ?thesis
          by (subst replace.simps) simp
      next
        case False
        from "1.IH"(2) [OF old s False] s
        have "set (replace old new (tl s)) \<subseteq> set s \<union> set new"
          by (cases s) auto
        with old s False show ?thesis
          by (subst replace.simps) (cases s; simp)
      qed
    qed
  qed
qed

lemma replace_single_absent:
  assumes "c \<notin> set new"
  shows "c \<notin> set (replace [c] new s)"
proof (induction s)
  case Nil
  show ?case by (subst replace.simps) simp
next
  case (Cons x s)
  show ?case
  proof (cases "x = c")
    case True
    with Cons assms show ?thesis
      by (subst replace.simps) simp
  next
    case False
    with Cons show ?thesis
      by (subst replace.simps) simp
  qed
qed

lemma foldl_replace_keeps:
  assumes "\<forall>c \<in> set s. P c" and "\<forall>(old, new) \<in> set reps. \<forall>c \<in> set new. P c"
  shows "\<forall>c \<in> set (foldl (\<lambda>t (symbol, word). replace symbol word t) s reps). P c"
  using assms
proof (induction reps arbitrary: s)
  case Nil
  then show ?case by simp
next
  case (Cons r reps)
  obtain old new where r: "r = (old, new)" by (cases r)
  have "\<forall>c \<in> set (replace old new s). P c"
    using set_replace [of old new s] Cons.prems r by auto
  from Cons.IH [OF this] Cons.prems(2) r show ?case by simp
qed

lemma foldl_replace_absent:
  assumes "([c], w) \<in> set reps" and "\<forall>(old, new) \<in> set reps. c \<notin> set new"
  shows "c \<notin> set (foldl (\<lambda>t (symbol, word). replace symbol word t) s reps)"
  using assms
proof (induction reps arbitrary: s)
  case Nil
  then show ?case by simp
next
  case (Cons r reps)
  obtain old new where r: "r = (old, new)" by (cases r)
  show ?case
  proof (cases "r = ([c], w)")
    case True
    with Cons.prems(2) have "c \<notin> set w" by auto
    then have "\<forall>x \<in> set (replace [c] w s). x \<noteq> c"
      using replace_single_absent [of c w s] by auto
    moreover have "\<forall>(old, new) \<in> set reps. \<forall>x \<in> set new. x \<noteq> c"
      using Cons.prems(2) by auto
    ultimately have "\<forall>x \<in> set (foldl (\<lambda>t (symbol, word). replace symbol word t)
                                  (replace [c] w s) reps). x \<noteq> c"
      by (rule foldl_replace_keeps)
    with True show ?thesis by auto
  next
    case False
    with Cons.prems(1) have "([c], w) \<in> set reps" by simp
    moreover from Cons.prems(2) have "\<forall>(old, new) \<in> set reps. c \<notin> set new" by simp
    ultimately show ?thesis
      using Cons.IH [of "replace old new s"] r by simp
  qed
qed

lemma split_from_words:
  assumes "\<forall>c \<in> set w. \<not> is_space c"
  shows "\<forall>u \<in> set (split_from w s).
           u \<noteq> [] \<and> (\<forall>c \<in> set u. \<not> is_space c) \<and> set u \<subseteq> set w \<union> set s"
  using assms
proof (induction s arbitrary: w)
  case Nil
  then show ?case by simp
next
  case (Cons c s)
  show ?case
  proof (cases "is_space c")
    case True
    from Cons.IH [of "[]"] have "\<forall>u \<in> set (split_from [] s).
           u \<noteq> [] \<and> (\<forall>c \<in> set u. \<not> is_space c) \<and> set u \<subseteq> set s"
      by simp
    with True Cons.prems show ?thesis by auto
  next
    case False
    with Cons.prems have "\<forall>x \<in> set (w @ [c]). \<not> is_space x" by simp
    from Cons.IH [OF this] False show ?thesis by auto
  qed
qed

lemma split_words:
  "\<forall>u \<in> set (split s). u \<noteq> [] \<and> (\<forall>c \<in> set u. \<not> is_space c) \<and> set u \<subseteq> set s"
  using split_from_words [of "[]" s] by (simp add: split_def)

lemma set_join: "set (join sep ws) \<subseteq> set sep \<union> \<Union> (set ` set ws)"
  by (induction sep ws rule: join.induct) auto

lemma set_strip: "set (strip s) \<subseteq> set s"
proof -
  have "set (strip s) \<subseteq> set (rev (dropWhile is_space s))"
    unfolding strip_def using set_dropWhileD by fastforce
  also have "\<dots> \<subseteq> set s"
    using set_dropWhileD by fastforce
  finally show ?thesis .
qed

lemma split_from_run:
  assumes "\<forall>c \<in> set u. \<not> is_space c"
  shows "split_from w (u @ s) = split_from (w @ u) s"
  using assms by (induction u arbitrary: w) simp_all

lemma split_join:
  assumes "\<forall>u \<in> set ws. u \<noteq> [] \<and> (\<forall>c \<in> set u. \<not> is_space c)"
  shows "split_from [] (join [32] ws) = ws"
  using assms
proof (induction "[32 :: nat]" ws rule: join.induct)
  case 1
  show ?case by simp
next
  case (2 w)
  then have "split_from [] (w @ []) = split_from ([] @ w) []"
    by (intro split_from_run) simp
  with 2 show ?case by simp
next
  case (3 w v ws)
  have sp: "is_space 32" by (simp add: is_space_def)
  from 3 have "split_from [] (w @ 32 # join [32] (v # ws)) = split_from ([] @ w) (32 # join [32] (v # ws))"
    by (intro split_from_run) simp
  with 3 sp show ?case by simp
qed

lemma join_ends:
  assumes "\<forall>u \<in> set ws. u \<noteq> [] \<and> (\<forall>c \<in> set u. \<not> is_space c)" and "ws \<noteq> []"
  shows "join [32] ws \<noteq> [] \<and> \<not> is_space (hd (join [32] ws)) \<and> \<not> is_space (last (join [32] ws))"
  using assms
proof (induction "[32 :: nat]" ws rule: join.induct)
  case 1
  then show ?case by simp
next
  case (2 w)
  then show ?case by simp
next
  case (3 w v ws)
  then have "join [32] (v # ws) \<noteq> []" and "\<not> is_space (last (join [32] (v # ws)))"
    by simp_all
  with 3 show ?case by simp
qed

lemma strip_ends:
  assumes "s \<noteq> []" and "\<not> is_space (hd s)" and "\<not> is_space (last s)"
  shows "strip s = s"
proof -
  from assms(1,2) have "dropWhile is_space s = s"
    by (cases s) simp_all
  moreover from assms(1,3) have "dropWhile is_space (rev s) = rev s"
    by (cases "rev s") (simp_all add: last_rev [symmetric] del: last_rev)
  ultimately show ?thesis by (simp add: strip_def)
qed

lemma strip_join:
  assumes "\<forall>u \<in> set ws. u \<noteq> [] \<and> (\<forall>c \<in> set u. \<not> is_space c)"
  shows "strip (join [32] ws) = join [32] ws"
proof (cases "ws = []")
  case True
  then show ?thesis by (simp add: strip_def)
next
  case False
  from join_ends [OF assms False] show ?thesis
    by (intro strip_ends) simp_all
qed
lemma clean_text_words:
  "\<exists>ws. clean_text_for_speech text = join [32] ws
        \<and> (\<forall>u \<in> set ws. u \<noteq> [] \<and> (\<forall>c \<in> set u. \<not> is_space c))
        \<and> (\<forall>u \<in> set ws. set u \<subseteq> set (foldl (\<lambda>t (symbol, word). replace symbol word t)
                                           (filter (\<lambda>c. \<not> emoji c) text) replacements))"
proof -
  let ?t2 = "foldl (\<lambda>t (symbol, word). replace symbol word t)
               (filter (\<lambda>c. \<not> emoji c) text) replacements"
  have w: "\<forall>u \<in> set (split ?t2). u \<noteq> [] \<and> (\<forall>c \<in> set u. \<not> is_space c)"
    using split_words [of ?t2] by blast
  have "clean_text_for_speech text = strip (join [32] (split ?t2))"
    by (simp add: clean_text_for_speech_unfold ascii_def)
  also have "\<dots> = join [32] (split ?t2)"
    using w by (rule strip_join)
  finally show ?thesis
    using w split_words [of ?t2] by blast
qed

lemma join_blank_all:
  assumes "P 32" and "\<forall>u \<in> set ws. \<forall>c \<in> set u. P c"
  shows "\<forall>c \<in> set (join [32] ws). P c"
proof
  fix c assume "c \<in> set (join [32] ws)"
  with set_join [of "[32]" ws] have "c = 32 \<or> (\<exists>u \<in> set ws. c \<in> set u)"
    by auto
  with assms show "P c" by blast
qed

lemma clean_text_keeps:
  assumes "P 32" and "\<forall>(old, new) \<in> set replacements. \<forall>c \<in> set new. P c"
    and "\<forall>c \<in> set text. \<not> emoji c \<longrightarrow> P c"
  shows "\<forall>c \<in> set (clean_text_for_speech text). P c"
proof -
  let ?t2 = "foldl (\<lambda>t (symbol, word). replace symbol word t)
               (filter (\<lambda>c. \<not> emoji c) text) replacements"
  from assms(3) have "\<forall>c \<in> set (filter (\<lambda>c. \<not> emoji c) text). P c" by simp
  then have t2: "\<forall>c \<in> set ?t2. P c"
    using assms(2) by (rule foldl_replace_keeps)
  from clean_text_words [of "text"] obtain ws
    where c: "clean_text_for_speech text = join [32] ws" and s: "\<forall>u \<in> set ws. set u \<subseteq> set ?t2"
    by blast
  from s t2 have "\<forall>u \<in> set ws. \<forall>c \<in> set u. P c" by blast
  with assms(1) have "\<forall>c \<in> set (join [32] ws). P c" by (rule join_blank_all)
  with c show ?thesis by simp
qed

lemma clean_text_absent:
  assumes "([c], w) \<in> set replacements" and "\<forall>(old, new) \<in> set replacements. c \<notin> set new"
    and "c \<noteq> 32"
  shows "c \<notin> set (clean_text_for_speech text)"
proof -
  let ?t2 = "foldl (\<lambda>t (symbol, word). replace symbol word t)
               (filter (\<lambda>c. \<not> emoji c) text) replacements"
  have t2: "c \<notin> set ?t2"
    using assms(1,2) by (rule foldl_replace_absent)
  from clean_text_words [of "text"] obtain ws
    where c: "clean_text_for_speech text = join [32] ws" and s: "\<forall>u \<in> set ws. set u \<subseteq> set ?t2"
    by blast
  from s t2 have "\<forall>u \<in> set ws. \<forall>x \<in> set u. x \<noteq> c" by blast
  with assms(3) have "\<forall>x \<in> set (join [32] ws). x \<noteq> c"
    by (intro join_blank_all) simp_all
  with c show ?thesis by auto
qed

lemma clean_text_no_emoji: "\<forall>c \<in> set (clean_text_for_speech text). \<not> emoji c"
  by (rule clean_text_keeps) (simp_all add: emoji_def replacements_def ascii_def)

lemma clean_text_no_symbols:
  "\<forall>c \<in> set (clean_text_for_speech text).
     c \<notin> set (ascii ''%&@#$'') \<and> c \<notin> {0x20AC, 0xA3, 0x20B9}"
proof -
  have "37 \<notin> set (clean_text_for_speech text)"
    by (rule clean_text_absent [where w = "ascii '' percent''"])
       (simp_all add: replacements_def ascii_def)
  moreover have "38 \<notin> set (clean_text_for_speech text)"
    by (rule clean_text_absent [where w = "ascii '' and ''"])
       (simp_all add: replacements_def ascii_def)
  moreover have "64 \<notin> set (clean_text_for_speech text)"
    by (rule clean_text_absent [where w = "ascii '' at ''"])
       (simp_all add: replacements_def ascii_def)
  moreover have "35 \<notin> set (clean_text_for_speech text)"
    by (rule clean_text_absent [where w = "ascii '' hash ''"])
       (simp_all add: replacements_def ascii_def)
  moreover have "36 \<notin> set (clean_text_for_speech text)"
    by (rule clean_text_absent [where w = "ascii '' dollars ''"])
       (simp_all add: replacements_def ascii_def)
  moreover have "0x20AC \<notin> set (clean_text_for_speech text)"
    by (rule clean_text_absent [where w = "ascii '' euros ''"])
       (simp_all add: replacements_def ascii_def)
  moreover have "0xA3 \<notin> set (clean_text_for_speech text)"
    by (rule clean_text_absent [where w = "ascii '' pounds ''"])
       (simp_all add: replacements_def ascii_def)
  moreover have "0x20B9 \<notin> set (clean_text_for_speech text)"
    by (rule clean_text_absent [where w = "ascii '' rupees ''"])
       (simp_all add: replacements_def ascii_def)
  ultimately show ?thesis
    by (auto simp add: ascii_def)
qed

lemma clean_text_collapsed:
  "join (ascii '' '') (split (clean_text_for_speech text)) = clean_text_for_speech text
   \<and> strip (clean_text_for_speech text) = clean_text_for_speech text"
proof -
  from clean_text_words [of "text"] obtain ws
    where c: "clean_text_for_speech text = join [32] ws"
      and w: "\<forall>u \<in> set ws. u \<noteq> [] \<and> (\<forall>c \<in> set u. \<not> is_space c)"
    by blast
  from split_join [OF w] strip_join [OF w] c show ?thesis
    by (simp add: split_def ascii_def)
qed

section \<open>Properties of \<open>speak\<close>\<close>

text \<open>
  What holds of \<open>speak\<close> for every text. Whatever it adds to the speech queue is the one
  text \<open>clean_text_for_speech text\<close>, computed before the \<open>put\<close>; what was queued before
  either stays or has been discarded by the interrupt. A cleaned text holds no code point
  of the ranges of \<open>emoji_pattern\<close> and none of the symbols \<open>%\<close>, \<open>&\<close>, \<open>@\<close>, \<open>#\<close>, \<open>$\<close>, euro,
  pound and rupee, and its white space is collapsed: it is its own words joined by single
  blanks, with nothing to strip. The worker hands the text it takes from the queue to the
  engine as it is.
\<close>

theorem speak_enqueues_clean_text:
  "(\<exists>kept. speech_queue (snd (speak stop_exn text interrupt t))
             = kept @ (if engine t \<and> strip text \<noteq> [] then [clean_text_for_speech text] else [])
           \<and> (kept = speech_queue t \<or> kept = []))
   \<and> (\<forall>c \<in> set (clean_text_for_speech text).
         \<not> emoji c \<and> c \<notin> set (ascii ''%&@#$'') \<and> c \<notin> {0x20AC, 0xA3, 0x20B9})
   \<and> join (ascii '' '') (split (clean_text_for_speech text)) = clean_text_for_speech text
   \<and> strip (clean_text_for_speech text) = clean_text_for_speech text
   \<and> (engine t \<and> \<not> stop_speaking t \<and> queued \<noteq> [] \<longrightarrow>
         spoken (worker_take (t\<lparr>speech_queue := queued # rest\<rparr>)) = spoken t @ [queued]
         \<and> speech_queue (worker_take (t\<lparr>speech_queue := queued # rest\<rparr>)) = rest)"
proof -
  have "\<exists>kept. speech_queue (snd (speak stop_exn text interrupt t))
             = kept @ (if engine t \<and> strip text \<noteq> [] then [clean_text_for_speech text] else [])
           \<and> (kept = speech_queue t \<or> kept = [])"
  proof (cases "engine t \<and> strip text \<noteq> []")
    case False
    then have "speech_queue (snd (speak stop_exn text interrupt t)) = speech_queue t"
      by (auto simp add: speak_def strip_def)
    moreover from False
    have "(if engine t \<and> strip text \<noteq> [] then [clean_text_for_speech text] else []) = []"
      by simp
    ultimately show ?thesis by simp
  next
    case True
    then have "text \<noteq> []" by (auto simp add: strip_def)
    with True have "speech_queue (snd (speak stop_exn text interrupt t))
             = speech_queue (snd (if interrupt then stop_current_speech stop_exn t else ([], t)))
                 @ [clean_text_for_speech text]"
      by (simp add: speak_def Let_def case_prod_beta)
    moreover have "speech_queue (snd (if interrupt then stop_current_speech stop_exn t else ([], t)))
                     = speech_queue t
                   \<or> speech_queue (snd (if interrupt then stop_current_speech stop_exn t
                                          else ([], t))) = []"
      by (simp add: stop_current_speech_def clear_queue_empty split: option.split)
    ultimately show ?thesis using True by auto
  qed
  moreover have "engine t \<and> \<not> stop_speaking t \<and> queued \<noteq> [] \<longrightarrow>
         spoken (worker_take (t\<lparr>speech_queue := queued # rest\<rparr>)) = spoken t @ [queued]
         \<and> speech_queue (worker_take (t\<lparr>speech_queue := queued # rest\<rparr>)) = rest"
    by (simp add: worker_take_def)
  ultimately show ?thesis
    using clean_text_no_emoji [of "text"] clean_text_no_symbols [of "text"]
      clean_text_collapsed [of "text"]
    by blast
qed
theorem speak_enqueues_clean_text_witness:
  "speech_queue (snd (speak None (ascii ''It is 25'' @ [0xB0, 67] @ ascii '' & 50% humid '' @ [0x1F600])
                        False (TTSEngine_init True)))
     = [ascii ''It is 25 degrees Celsius and 50 percent humid'']
   \<and> list_all (\<lambda>c. \<not> emoji c \<and> c \<notin> set (ascii ''%&@#$'') \<and> c \<notin> {0x20AC, 0xA3, 0x20B9})
         (ascii ''It is 25 degrees Celsius and 50 percent humid'')
   \<and> join (ascii '' '') (split (ascii ''It is 25 degrees Celsius and 50 percent humid''))
       = ascii ''It is 25 degrees Celsius and 50 percent humid''
   \<and> spoken (worker_take (TTSEngine_init True
               \<lparr>speech_queue := [ascii ''It is 25 degrees Celsius and 50 percent humid'']\<rparr>))
       = [ascii ''It is 25 degrees Celsius and 50 percent humid'']"
proof -
  let ?txt = "ascii ''It is 25'' @ [0xB0, 67] @ ascii '' & 50% humid '' @ [0x1F600]"
  let ?out = "ascii ''It is 25 degrees Celsius and 50 percent humid''"
  have c: "clean_text_for_speech ?txt = ?out"
    unfolding clean_text_for_speech_unfold
    by (simp add: ascii_def replacements_def split_def is_space_def emoji_def strip_def
          replace.simps)
  have s: "strip ?txt \<noteq> []"
    by (simp add: ascii_def strip_def is_space_def)
  have e: "engine (TTSEngine_init True) \<and> \<not> stop_speaking (TTSEngine_init True) \<and> ?out \<noteq> []"
    by (simp add: TTSEngine_init_def ascii_def)
  from speak_enqueues_clean_text [of None ?txt False "TTSEngine_init True" ?out "[]"] c s e
  show ?thesis
    by (auto simp add: TTSEngine_init_def list_all_iff)
qed

text \<open>Each symbol of \<open>replacements\<close>, spoken alone, becomes its word.\<close>

lemma symbols_become_words:
  "clean_text_for_speech [0xB0, 67] = ascii ''degrees Celsius''"
  "clean_text_for_speech [0xB0, 70] = ascii ''degrees Fahrenheit''"
  "clean_text_for_speech (ascii ''%'') = ascii ''percent''"
  "clean_text_for_speech (ascii ''&'') = ascii ''and''"
  "clean_text_for_speech (ascii ''@'') = ascii ''at''"
  "clean_text_for_speech (ascii ''#'') = ascii ''hash''"
  "clean_text_for_speech (ascii ''$'') = ascii ''dollars''"
  "clean_text_for_speech [0x20AC] = ascii ''euros''"
  "clean_text_for_speech [0xA3] = ascii ''pounds''"
  "clean_text_for_speech [0x20B9] = ascii ''rupees''"
  unfolding clean_text_for_speech_unfold
  by (simp_all add: ascii_def replacements_def split_def is_space_def emoji_def strip_def
        replace.simps)

text \<open>
  C9. The claim asks that a queued text is free of emoji. The comments of
  \<open>_clean_text_for_speech\<close> say the same (\<open>Remove emojis and special characters\<close>), but the
  ranges of \<open>emoji_pattern\<close> end at U+1F6FF and U+1F251 and leave out the emoji from
  U+1F900 on. The robot face U+1F916, which the program prints before each of its replies,
  is one of them: \<open>speak\<close> puts the text made of the robot face and \<open>hi\<close> on the speech queue
  with the emoji still in it.
\<close>

theorem speak_keeps_robot_face:
  "\<not> emoji 0x1F916
   \<and> clean_text_for_speech ([0x1F916] @ ascii '' hi'') = [0x1F916] @ ascii '' hi''
   \<and> speech_queue (snd (speak None ([0x1F916] @ ascii '' hi'') False (TTSEngine_init True)))
       = [[0x1F916] @ ascii '' hi'']"
proof -
  have e: "\<not> emoji 0x1F916"
    by (simp add: emoji_def)
  have c: "clean_text_for_speech ([0x1F916] @ ascii '' hi'') = [0x1F916] @ ascii '' hi''"
    unfolding clean_text_for_speech_unfold
    by (simp add: ascii_def replacements_def split_def is_space_def emoji_def strip_def
          replace.simps)
  have s: "strip ([0x1F916] @ ascii '' hi'') \<noteq> []"
    by (simp add: ascii_def strip_def is_space_def)
  have "speech_queue (snd (speak None ([0x1F916] @ ascii '' hi'') False (TTSEngine_init True)))
          = [clean_text_for_speech ([0x1F916] @ ascii '' hi'')]"
    using s by (simp add: speak_def Let_def TTSEngine_init_def)
  with e c show ?thesis by simp
qed

section \<open>Properties of the router\<close>

lemma not_Exception_iff: "\<not> is_Exception e \<longleftrightarrow> e = KeyboardInterrupt"
  by (cases e) simp_all

lemma try_except_Inr_handler:
  assumes "try_except body (\<lambda>e. Inr (h e)) = Inl e"
  shows "e = KeyboardInterrupt \<and> body = Inl e"
  using assms
  by (cases body) (auto simp add: try_except_def not_Exception_iff [symmetric] split: if_splits)

lemma try_except_keeps:
  assumes "\<And>e. body = Inl e \<Longrightarrow> e = KeyboardInterrupt"
  shows "try_except body handler = body"
  using assms by (cases body) (auto simp add: try_except_def)

lemma route_llm_cases:
  "route_llm m q =
     (case query_groq m q of
        Inl e \<Rightarrow> if is_Exception e then Inr sorry_reply else Inl e
      | Inr ai_resp \<Rightarrow> if ai_resp \<noteq> [] then Inr (ascii ''ai'', ai_resp) else Inr sorry_reply)"
  by (simp add: route_llm_def or_else_def try_except_def split: sum.split)

lemma route_facts_cases:
  "route_facts m q = Inl e \<Longrightarrow> e = KeyboardInterrupt \<and> query_facts m q = Inl e"
  "route_facts m q = Inr (Some r) \<Longrightarrow> fst r = ascii ''fact''"
  by (auto simp add: route_facts_def try_except_def not_Exception_iff [symmetric]
        split: if_splits sum.splits option.splits)

lemma route_facts_Exception:
  assumes "query_facts m q = Inl e" and "is_Exception e"
  shows "route_facts m q = Inr None"
  using assms by (simp add: route_facts_def try_except_def)

lemma route_body_Inl:
  assumes "route_body m q = Inl e"
  shows "e = KeyboardInterrupt
         \<and> (get_weather m q = Inl e \<or> get_news m q = Inl e \<or> extract_ticker m q = Inl e
            \<or> (\<exists>t. get_price_for_ticker m t = Inl e) \<or> query_facts m q = Inl e
            \<or> query_groq m q = Inl e)"
proof -
  consider (w) "is_weather (re_word m) q"
    | (n) "\<not> is_weather (re_word m) q" "is_news (re_word m) q"
    | (f) "\<not> is_weather (re_word m) q" "\<not> is_news (re_word m) q" "is_finance (re_word m) q"
    | (o) "\<not> is_weather (re_word m) q" "\<not> is_news (re_word m) q" "\<not> is_finance (re_word m) q"
    by blast
  then show ?thesis
  proof cases
    case w
    with assms show ?thesis
      by (auto simp add: route_body_def try_except_def not_Exception_iff [symmetric]
            split: if_splits sum.splits)
  next
    case n
    with assms show ?thesis
      by (auto simp add: route_body_def try_except_def not_Exception_iff [symmetric]
            split: if_splits sum.splits news.splits)
  next
    case f
    with assms show ?thesis
      by (auto simp add: route_body_def try_except_def not_Exception_iff [symmetric]
            split: if_splits sum.splits option.splits)
  next
    case o
    with assms have r: "or_else (route_facts m q) (route_llm m q) = Inl e"
      by (simp add: route_body_def)
    show ?thesis
    proof (cases "route_facts m q")
      case (Inl e')
      with r route_facts_cases(1) [of m q e'] show ?thesis
        by (simp add: or_else_def)
    next
      case (Inr found)
      with r have "route_llm m q = Inl e"
        by (cases found) (simp_all add: or_else_def)
      then show ?thesis
        by (auto simp add: route_llm_cases not_Exception_iff [symmetric]
              split: sum.splits if_splits)
    qed
  qed
qed

lemma route_body_tags:
  assumes "route_body m q = Inr (tag, reply)"
  shows "tag \<in> set (map ascii [''weather'', ''gnews'', ''finance'', ''fact'', ''ai'', ''system''])"
proof -
  consider (w) "is_weather (re_word m) q"
    | (n) "\<not> is_weather (re_word m) q" "is_news (re_word m) q"
    | (f) "\<not> is_weather (re_word m) q" "\<not> is_news (re_word m) q" "is_finance (re_word m) q"
    | (o) "\<not> is_weather (re_word m) q" "\<not> is_news (re_word m) q" "\<not> is_finance (re_word m) q"
    by blast
  then show ?thesis
  proof cases
    case w
    with assms show ?thesis
      by (auto simp add: route_body_def try_except_def split: if_splits sum.splits)
  next
    case n
    with assms show ?thesis
      by (auto simp add: route_body_def try_except_def split: if_splits sum.splits news.splits)
  next
    case f
    with assms show ?thesis
      by (auto simp add: route_body_def try_except_def ask_ticker_def
            split: if_splits sum.splits option.splits)
  next
    case o
    with assms have r: "or_else (route_facts m q) (route_llm m q) = Inr (tag, reply)"
      by (simp add: route_body_def)
    show ?thesis
    proof (cases "route_facts m q")
      case (Inl e')
      with r show ?thesis by (simp add: or_else_def)
    next
      case (Inr found)
      show ?thesis
      proof (cases found)
        case None
        with Inr r have "route_llm m q = Inr (tag, reply)"
          by (simp add: or_else_def)
        then show ?thesis
          by (auto simp add: route_llm_cases sorry_reply_def split: sum.splits if_splits)
      next
        case (Some x)
        with Inr r route_facts_cases(2) [of m q x] show ?thesis
          by (auto simp add: or_else_def)
      qed
    qed
  qed
qed
text \<open>
  C10, the claim as it stands fails: for a query that asks for a fact, the facts lookup
  raises (as the sources stand it always does) and the reply that comes back is the answer
  of the language model with the tag \<open>ai\<close>, not a reply tagged \<open>system\<close>.
\<close>

theorem route_facts_exception_counterexample:
  "query_facts example_modules (ascii ''who is Ada'')
     = Inl (Error (ascii ''module 'chatbot.facts' has no attribute 'query_facts'' @ [39]))
   \<and> route example_modules (Some (ascii ''who is Ada'')) ([] :: message list)
     = Inr (ascii ''ai'', ascii ''Ada Lovelace was a mathematician.'')"
  by (simp add: route_def route_body_def route_facts_def route_llm_def or_else_def
        try_except_def is_weather_def is_news_def is_finance_def is_fact_def search_words_def
        word_boundary_def match_at_def ci_eq_def is_word_def strip_def is_space_def ascii_def
        example_modules_def llm_answers_def ascii_only_def facts_missing_def)

text \<open>
  C10, as the code has it. For every query, a string or \<open>None\<close>, and every behaviour of
  the modules: \<open>route\<close> lets no \<open>Exception\<close> out (what can come out is a
  \<open>KeyboardInterrupt\<close> raised inside a module, and with modules that raise none \<open>route\<close>
  returns); what it returns is a pair of strings whose tag is one of \<open>weather\<close>, \<open>gnews\<close>,
  \<open>finance\<close>, \<open>fact\<close>, \<open>ai\<close>, \<open>system\<close>. An \<open>Exception\<close> of the weather, news or finance
  module becomes a reply tagged \<open>system\<close> that names the module. An \<open>Exception\<close> of the
  facts lookup is dropped and the query goes on to the language model; there a non-empty
  answer is returned with the tag \<open>ai\<close>, while an \<open>Exception\<close> or an empty answer gives the
  fallback reply tagged \<open>system\<close>.
\<close>

theorem route_catches_exceptions:
  "let q = strip (case query of None \<Rightarrow> [] | Some text \<Rightarrow> text) in
     (\<forall>e. route m query history = Inl e \<longrightarrow> e = KeyboardInterrupt)
   \<and> ((\<forall>x. get_weather m x \<noteq> Inl KeyboardInterrupt \<and> get_news m x \<noteq> Inl KeyboardInterrupt
            \<and> extract_ticker m x \<noteq> Inl KeyboardInterrupt
            \<and> get_price_for_ticker m x \<noteq> Inl KeyboardInterrupt
            \<and> query_facts m x \<noteq> Inl KeyboardInterrupt \<and> query_groq m x \<noteq> Inl KeyboardInterrupt)
        \<longrightarrow> (\<exists>tag reply. route m query history = Inr (tag, reply)))
   \<and> (\<forall>tag reply. route m query history = Inr (tag, reply) \<longrightarrow>
          tag \<in> set (map ascii [''weather'', ''gnews'', ''finance'', ''fact'', ''ai'', ''system'']))
   \<and> (\<forall>e. is_Exception e \<and> is_weather (re_word m) q \<and> get_weather m q = Inl e \<longrightarrow>
          route m query history
            = Inr (ascii ''system'', ascii ''Weather module error: '' @ exn_str e))
   \<and> (\<forall>e. is_Exception e \<and> \<not> is_weather (re_word m) q \<and> is_news (re_word m) q
            \<and> get_news m q = Inl e \<longrightarrow>
          route m query history
            = Inr (ascii ''system'', ascii ''News module error: '' @ exn_str e))
   \<and> (\<forall>e. is_Exception e \<and> \<not> is_weather (re_word m) q \<and> \<not> is_news (re_word m) q
            \<and> is_finance (re_word m) q
            \<and> (extract_ticker m q = Inl e
                 \<or> (\<exists>t. t \<noteq> [] \<and> extract_ticker m q = Inr (Some t)
                          \<and> get_price_for_ticker m t = Inl e)) \<longrightarrow>
          route m query history
            = Inr (ascii ''system'', ascii ''Finance module error: '' @ exn_str e))
   \<and> (\<forall>e. is_Exception e \<and> query_facts m q = Inl e \<longrightarrow> route_facts m q = Inr None)
   \<and> (\<not> is_weather (re_word m) q \<and> \<not> is_news (re_word m) q \<and> \<not> is_finance (re_word m) q
        \<and> route_facts m q = Inr None \<longrightarrow>
          route m query history =
            (case query_groq m q of
               Inl e \<Rightarrow> if is_Exception e then Inr sorry_reply else Inl e
             | Inr ai_resp \<Rightarrow>
                 if ai_resp \<noteq> [] then Inr (ascii ''ai'', ai_resp) else Inr sorry_reply))
   \<and> fst sorry_reply = ascii ''system''"
proof -
  define q where "q = strip (case query of None \<Rightarrow> [] | Some text \<Rightarrow> text)"
  have r: "route m query history
             = try_except (route_body m q)
                 (\<lambda>e. Inr (ascii ''system'', ascii ''Router error: '' @ exn_str e))"
    by (simp add: route_def q_def)
  have a: "e = KeyboardInterrupt \<and> route_body m q = Inl e" if "route m query history = Inl e" for e
    using that try_except_Inr_handler [of "route_body m q" _ e] unfolding r by simp
  have b: "route m query history = route_body m q"
    unfolding r using route_body_Inl [of m q] by (intro try_except_keeps) simp
  have c1: "\<forall>e. route m query history = Inl e \<longrightarrow> e = KeyboardInterrupt"
    using a by blast
  have c2: "(\<forall>x. get_weather m x \<noteq> Inl KeyboardInterrupt \<and> get_news m x \<noteq> Inl KeyboardInterrupt
            \<and> extract_ticker m x \<noteq> Inl KeyboardInterrupt
            \<and> get_price_for_ticker m x \<noteq> Inl KeyboardInterrupt
            \<and> query_facts m x \<noteq> Inl KeyboardInterrupt \<and> query_groq m x \<noteq> Inl KeyboardInterrupt)
        \<longrightarrow> (\<exists>tag reply. route m query history = Inr (tag, reply))"
  proof
    assume n: "\<forall>x. get_weather m x \<noteq> Inl KeyboardInterrupt \<and> get_news m x \<noteq> Inl KeyboardInterrupt
            \<and> extract_ticker m x \<noteq> Inl KeyboardInterrupt
            \<and> get_price_for_ticker m x \<noteq> Inl KeyboardInterrupt
            \<and> query_facts m x \<noteq> Inl KeyboardInterrupt \<and> query_groq m x \<noteq> Inl KeyboardInterrupt"
    show "\<exists>tag reply. route m query history = Inr (tag, reply)"
    proof (cases "route m query history")
      case (Inl e)
      with a [of e] route_body_Inl [of m q e] n show ?thesis by metis
    next
      case (Inr p)
      then show ?thesis by (cases p) simp
    qed
  qed
  have c3: "\<forall>tag reply. route m query history = Inr (tag, reply) \<longrightarrow>
          tag \<in> set (map ascii [''weather'', ''gnews'', ''finance'', ''fact'', ''ai'', ''system''])"
    unfolding b using route_body_tags [of m q] by blast
  have c4: "\<forall>e. is_Exception e \<and> is_weather (re_word m) q \<and> get_weather m q = Inl e \<longrightarrow>
          route m query history
            = Inr (ascii ''system'', ascii ''Weather module error: '' @ exn_str e)"
    unfolding b by (simp add: route_body_def try_except_def)
  have c5: "\<forall>e. is_Exception e \<and> \<not> is_weather (re_word m) q \<and> is_news (re_word m) q
            \<and> get_news m q = Inl e \<longrightarrow>
          route m query history
            = Inr (ascii ''system'', ascii ''News module error: '' @ exn_str e)"
    unfolding b by (simp add: route_body_def try_except_def)
  have c6: "\<forall>e. is_Exception e \<and> \<not> is_weather (re_word m) q \<and> \<not> is_news (re_word m) q
            \<and> is_finance (re_word m) q
            \<and> (extract_ticker m q = Inl e
                 \<or> (\<exists>t. t \<noteq> [] \<and> extract_ticker m q = Inr (Some t)
                          \<and> get_price_for_ticker m t = Inl e)) \<longrightarrow>
          route m query history
            = Inr (ascii ''system'', ascii ''Finance module error: '' @ exn_str e)"
    unfolding b by (auto simp add: route_body_def try_except_def)
  have c7: "\<forall>e. is_Exception e \<and> query_facts m q = Inl e \<longrightarrow> route_facts m q = Inr None"
    using route_facts_Exception [of m q] by blast
  have c8: "\<not> is_weather (re_word m) q \<and> \<not> is_news (re_word m) q \<and> \<not> is_finance (re_word m) q
        \<and> route_facts m q = Inr None \<longrightarrow>
          route m query history =
            (case query_groq m q of
               Inl e \<Rightarrow> if is_Exception e then Inr sorry_reply else Inl e
             | Inr ai_resp \<Rightarrow>
                 if ai_resp \<noteq> [] then Inr (ascii ''ai'', ai_resp) else Inr sorry_reply)"
    unfolding b by (simp add: route_body_def or_else_def route_llm_cases)
  have c9: "fst sorry_reply = ascii ''system''"
    by (simp add: sorry_reply_def)
  from c1 c2 c3 c4 c5 c6 c7 c8 c9 show ?thesis
    unfolding Let_def q_def [symmetric] by (intro conjI)
qed
lemmas intent_eval =
  is_weather_def is_news_def is_finance_def is_fact_def search_words_def word_boundary_def
  match_at_def ci_eq_def is_word_def contains_def lower_def lower_cp_def strip_def is_space_def
  ascii_def ascii_only_def

theorem route_catches_exceptions_witness:
  "route example_modules (Some (ascii ''Weather in Pune?'')) ([] :: message list)
     = Inr (ascii ''system'', ascii ''Weather module error: connection refused'')
   \<and> route (example_modules\<lparr>get_news := news_down\<rparr>) (Some (ascii ''latest headlines''))
         ([] :: message list)
     = Inr (ascii ''system'', ascii ''News module error: quota exceeded'')
   \<and> route (example_modules\<lparr>extract_ticker := ticker_down\<rparr>) (Some (ascii ''bitcoin price''))
         ([] :: message list)
     = Inr (ascii ''system'', ascii ''Finance module error: no module named yfinance'')
   \<and> route example_modules (Some (ascii ''who is Ada'')) ([] :: message list)
     = Inr (ascii ''ai'', ascii ''Ada Lovelace was a mathematician.'')
   \<and> route (example_modules\<lparr>query_groq := llm_down\<rparr>) None ([] :: message list)
     = Inr (ascii ''system'', ascii ''Sorry '' @ [0x2014] @ ascii '' I couldn't answer that right now.'')
   \<and> (\<exists>tag reply. route example_modules None ([] :: message list) = Inr (tag, reply)
         \<and> tag \<in> set (map ascii [''weather'', ''gnews'', ''finance'', ''fact'', ''ai'', ''system'']))"
proof -
  have w: "route example_modules (Some (ascii ''Weather in Pune?'')) ([] :: message list)
             = Inr (ascii ''system'', ascii ''Weather module error: connection refused'')"
  proof -
    have "strip (ascii ''Weather in Pune?'') = ascii ''Weather in Pune?''"
      by (simp add: strip_def is_space_def ascii_def)
    moreover have "is_Exception (Error (ascii ''connection refused''))" by simp
    moreover have "is_weather (re_word example_modules) (ascii ''Weather in Pune?'')"
      by (simp add: intent_eval example_modules_def)
    moreover have "get_weather example_modules (ascii ''Weather in Pune?'')
                     = Inl (Error (ascii ''connection refused''))"
      by (simp add: example_modules_def weather_down_def)
    ultimately show ?thesis
      using route_catches_exceptions
              [where m = example_modules and query = "Some (ascii ''Weather in Pune?'')"
                 and history = "[] :: message list"]
      by (simp add: Let_def ascii_def)
  qed
  have n: "route (example_modules\<lparr>get_news := news_down\<rparr>) (Some (ascii ''latest headlines''))
               ([] :: message list)
             = Inr (ascii ''system'', ascii ''News module error: quota exceeded'')"
  proof -
    let ?m = "example_modules\<lparr>get_news := news_down\<rparr>"
    have "strip (ascii ''latest headlines'') = ascii ''latest headlines''"
      by (simp add: strip_def is_space_def ascii_def)
    moreover have "is_Exception (Error (ascii ''quota exceeded''))" by simp
    moreover have "\<not> is_weather (re_word ?m) (ascii ''latest headlines'')"
      by (simp add: intent_eval example_modules_def)
    moreover have "is_news (re_word ?m) (ascii ''latest headlines'')"
      by (simp add: intent_eval example_modules_def)
    moreover have "get_news ?m (ascii ''latest headlines'') = Inl (Error (ascii ''quota exceeded''))"
      by (simp add: news_down_def)
    ultimately show ?thesis
      using route_catches_exceptions
              [where m = ?m and query = "Some (ascii ''latest headlines'')"
                 and history = "[] :: message list"]
      by (simp add: Let_def ascii_def)
  qed
  have f: "route (example_modules\<lparr>extract_ticker := ticker_down\<rparr>) (Some (ascii ''bitcoin price''))
               ([] :: message list)
             = Inr (ascii ''system'', ascii ''Finance module error: no module named yfinance'')"
  proof -
    let ?m = "example_modules\<lparr>extract_ticker := ticker_down\<rparr>"
    have "strip (ascii ''bitcoin price'') = ascii ''bitcoin price''"
      by (simp add: strip_def is_space_def ascii_def)
    moreover have "is_Exception (Error (ascii ''no module named yfinance''))" by simp
    moreover have "\<not> is_weather (re_word ?m) (ascii ''bitcoin price'')"
      by (simp add: intent_eval example_modules_def)
    moreover have "\<not> is_news (re_word ?m) (ascii ''bitcoin price'')"
      by (simp add: intent_eval example_modules_def)
    moreover have "is_finance (re_word ?m) (ascii ''bitcoin price'')"
      by (simp add: intent_eval example_modules_def)
    moreover have "extract_ticker ?m (ascii ''bitcoin price'')
                     = Inl (Error (ascii ''no module named yfinance''))"
      by (simp add: ticker_down_def)
    ultimately show ?thesis
      using route_catches_exceptions
              [where m = ?m and query = "Some (ascii ''bitcoin price'')"
                 and history = "[] :: message list"]
      by (simp add: Let_def ascii_def)
  qed
  have a: "route example_modules (Some (ascii ''who is Ada'')) ([] :: message list)
             = Inr (ascii ''ai'', ascii ''Ada Lovelace was a mathematician.'')"
  proof -
    have "strip (ascii ''who is Ada'') = ascii ''who is Ada''"
      by (simp add: strip_def is_space_def ascii_def)
    moreover have "is_Exception (Error (ascii ''module 'chatbot.facts' has no attribute 'query_facts'' @ [39]))"
      by simp
    moreover have "query_facts example_modules (ascii ''who is Ada'')
             = Inl (Error (ascii ''module 'chatbot.facts' has no attribute 'query_facts'' @ [39]))"
      by (simp add: example_modules_def facts_missing_def)
    moreover have "\<not> is_weather (re_word example_modules) (ascii ''who is Ada'')"
      by (simp add: intent_eval example_modules_def)
    moreover have "\<not> is_news (re_word example_modules) (ascii ''who is Ada'')"
      by (simp add: intent_eval example_modules_def)
    moreover have "\<not> is_finance (re_word example_modules) (ascii ''who is Ada'')"
      by (simp add: intent_eval example_modules_def)
    moreover have "query_groq example_modules (ascii ''who is Ada'')
                     = Inr (ascii ''Ada Lovelace was a mathematician.'')"
      by (simp add: example_modules_def llm_answers_def)
    moreover have "ascii ''Ada Lovelace was a mathematician.'' \<noteq> []"
      by (simp add: ascii_def)
    ultimately show ?thesis
      using route_catches_exceptions
              [where m = example_modules and query = "Some (ascii ''who is Ada'')"
                 and history = "[] :: message list"]
      by (simp add: Let_def ascii_def)
  qed
  have s: "route (example_modules\<lparr>query_groq := llm_down\<rparr>) None ([] :: message list)
             = Inr (ascii ''system'',
                    ascii ''Sorry '' @ [0x2014] @ ascii '' I couldn't answer that right now.'')"
  proof -
    let ?m = "example_modules\<lparr>query_groq := llm_down\<rparr>"
    have "strip [] = []"
      by (simp add: strip_def)
    moreover have "\<not> is_weather (re_word ?m) []" "\<not> is_news (re_word ?m) []"
      "\<not> is_finance (re_word ?m) []"
      by (simp_all add: intent_eval example_modules_def)
    moreover have "route_facts ?m [] = Inr None"
      by (simp add: route_facts_def intent_eval example_modules_def)
    moreover have "query_groq ?m [] = Inl (Error (ascii ''timed out''))"
      by (simp add: llm_down_def)
    ultimately show ?thesis
      using route_catches_exceptions
              [where m = ?m and query = None and history = "[] :: message list"]
      by (simp add: Let_def sorry_reply_def ascii_def)
  qed
  have t: "\<exists>tag reply. route example_modules None ([] :: message list) = Inr (tag, reply)
         \<and> tag \<in> set (map ascii [''weather'', ''gnews'', ''finance'', ''fact'', ''ai'', ''system''])"
  proof -
    have "\<forall>x. get_weather example_modules x \<noteq> Inl KeyboardInterrupt
            \<and> get_news example_modules x \<noteq> Inl KeyboardInterrupt
            \<and> extract_ticker example_modules x \<noteq> Inl KeyboardInterrupt
            \<and> get_price_for_ticker example_modules x \<noteq> Inl KeyboardInterrupt
            \<and> query_facts example_modules x \<noteq> Inl KeyboardInterrupt
            \<and> query_groq example_modules x \<noteq> Inl KeyboardInterrupt"
      by (simp add: example_modules_def weather_down_def no_news_def no_ticker_def no_price_def
            facts_missing_def llm_answers_def)
    then show ?thesis
      using route_catches_exceptions
              [where m = example_modules and query = None and history = "[] :: message list"]
      unfolding Let_def by blast
  qed
  from w n f a s t show ?thesis by (intro conjI)
qed

end
